theory Spec2Isabelle
  imports Complex_Main "HOL-Library.AList"
begin

section \<open>Python values\<close>

text \<open>
  The bridge (\<^verbatim>\<open>app.py\<close>) handles values decoded from JSON frames. A Python \<^verbatim>\<open>float\<close>
  is an IEEE-754 binary64 number. It is represented here by its exact value: \<open>Finite q\<close>
  is the double whose value is the rational \<open>q\<close> (\<open>Finite 0\<close> is \<^verbatim>\<open>0.0\<close>), \<open>NegZero\<close> is
  \<^verbatim>\<open>-0.0\<close>, and the three special values are constructors of their own.
\<close>

datatype pyfloat = Finite rat | NegZero | PosInf | NegInf | NaN

datatype pyval =
    PNone
  | PBool bool
  | PInt int
  | PFloat pyfloat
  | PStr string
  | PList "pyval list"
  | PDict "(string \<times> pyval) list"

text \<open>The exceptions that the built-ins used by \<^verbatim>\<open>transform_value\<close> raise.\<close>

datatype error = ValueError | TypeError | OverflowError

text \<open>
  What \<^verbatim>\<open>json.loads(msg)\<close> does: it returns the decoded value, it raises
  \<^verbatim>\<open>json.JSONDecodeError\<close>, or it raises an exception of another class (\<^verbatim>\<open>UnicodeDecodeError\<close>
  on a binary frame that is not UTF-8, \<^verbatim>\<open>RecursionError\<close> on a frame nested beyond the
  recursion limit).
\<close>

datatype decode_result = Decoded pyval | JSONDecodeError | OtherError

text \<open>
  Library functions that the bridge calls and whose text is not part of the repository
  are parameters of the model: parsing a string as a float (\<^verbatim>\<open>float(str)\<close>, \<open>None\<close> when
  it raises \<^verbatim>\<open>ValueError\<close>), binary64 multiplication, \<^verbatim>\<open>round(x, ndigits)\<close> on a float,
  \<^verbatim>\<open>json.loads\<close> and the JSONPath engine
  (\<^verbatim>\<open>jp(path).find(msg)\<close>, the matched values in the engine's order; the paths of the
  configuration are taken to compile). Every theorem below holds for all values of these
  parameters.
\<close>

record runtime =
  float_of_str :: "string \<Rightarrow> pyfloat option"
  float_mul :: "pyfloat \<Rightarrow> pyfloat \<Rightarrow> pyfloat"
  float_round :: "pyfloat \<Rightarrow> int \<Rightarrow> pyfloat"
  json_loads :: "string \<Rightarrow> decode_result"
  jsonpath_find :: "string \<Rightarrow> pyval \<Rightarrow> pyval list"

subsection \<open>Conversions between \<^verbatim>\<open>int\<close> and \<^verbatim>\<open>float\<close>\<close>

text \<open>The number of binary digits of a natural number (\<^verbatim>\<open>int.bit_length\<close>).\<close>

fun bit_length :: "nat \<Rightarrow> nat" where
  "bit_length n = (if n = 0 then 0 else Suc (bit_length (n div 2)))"

text \<open>
  \<^verbatim>\<open>float(n)\<close> for an integer \<open>n\<close> is the binary64 number nearest to \<open>n\<close>, ties going to
  the even significand. \<open>round53\<close> computes its value on the magnitude: an integer of at
  most 53 bits is kept, a longer one loses its low bits.
\<close>

definition round53 :: "nat \<Rightarrow> nat" where
  "round53 a =
     (let k = bit_length a in
      if k \<le> 53 then a
      else
        let sh = k - 53;
            q = a div 2 ^ sh;
            r = a mod 2 ^ sh;
            q' = (if 2 ^ sh < 2 * r \<or> (2 * r = 2 ^ sh \<and> odd q) then q + 1 else q)
        in q' * 2 ^ sh)"

text \<open>\<^verbatim>\<open>float(n)\<close> raises \<^verbatim>\<open>OverflowError\<close> when the rounded value is beyond the largest double.\<close>

definition float_of_int :: "int \<Rightarrow> error + pyfloat" where
  "float_of_int n =
     (let m = round53 (nat \<bar>n\<bar>) in
      if 2 ^ 1024 \<le> m then Inl OverflowError
      else Inr (Finite (of_int (sgn n * int m))))"

text \<open>
  \<^verbatim>\<open>float(x)\<close>: a float is returned as it is, a bool is 0.0 or 1.0, an integer is rounded,
  a string is parsed, and \<^verbatim>\<open>None\<close>, a list or a dict raise \<^verbatim>\<open>TypeError\<close>.
\<close>

fun py_float :: "runtime \<Rightarrow> pyval \<Rightarrow> error + pyfloat" where
  "py_float rt PNone = Inl TypeError"
| "py_float rt (PBool b) = Inr (Finite (if b then 1 else 0))"
| "py_float rt (PInt n) = float_of_int n"
| "py_float rt (PFloat f) = Inr f"
| "py_float rt (PStr s) =
     (case float_of_str rt s of None \<Rightarrow> Inl ValueError | Some f \<Rightarrow> Inr f)"
| "py_float rt (PList xs) = Inl TypeError"
| "py_float rt (PDict kvs) = Inl TypeError"

text \<open>
  \<^verbatim>\<open>int(f)\<close> for a float truncates towards zero; it raises \<^verbatim>\<open>OverflowError\<close> on an
  infinity and \<^verbatim>\<open>ValueError\<close> on a NaN.
\<close>

fun py_int :: "pyfloat \<Rightarrow> error + int" where
  "py_int (Finite q) = Inr (if 0 \<le> q then \<lfloor>q\<rfloor> else - \<lfloor>- q\<rfloor>)"
| "py_int NegZero = Inr 0"
| "py_int PosInf = Inl OverflowError"
| "py_int NegInf = Inl OverflowError"
| "py_int NaN = Inl ValueError"

text \<open>The comparison \<^verbatim>\<open>a <= b\<close> of two floats; a NaN compares false with everything.\<close>

fun float_le :: "pyfloat \<Rightarrow> pyfloat \<Rightarrow> bool" where
  "float_le NaN b = False"
| "float_le a NaN = False"
| "float_le NegInf b = True"
| "float_le a PosInf = True"
| "float_le PosInf b = False"
| "float_le a NegInf = False"
| "float_le (Finite p) (Finite q) = (p \<le> q)"
| "float_le (Finite p) NegZero = (p \<le> 0)"
| "float_le NegZero (Finite q) = (0 \<le> q)"
| "float_le NegZero NegZero = True"

subsection \<open>Formatting integers\<close>

definition digit_char :: "nat \<Rightarrow> char" where
  "digit_char d = ''0123456789'' ! d"

text \<open>The decimal digits of a natural number, as \<^verbatim>\<open>str\<close> prints them.\<close>

fun dec_digits :: "nat \<Rightarrow> string" where
  "dec_digits n =
     (if n < 10 then [digit_char n] else dec_digits (n div 10) @ [digit_char (n mod 10)])"

text \<open>\<^verbatim>\<open>s.zfill(w)\<close> on a string of digits.\<close>

definition zfill :: "nat \<Rightarrow> string \<Rightarrow> string" where
  "zfill w s = replicate (w - length s) CHR ''0'' @ s"

text \<open>
  The format \<^verbatim>\<open>f"{n:02d}"\<close>: at least two characters, padded with zeros after the sign.
\<close>

definition format_02d :: "int \<Rightarrow> string" where
  "format_02d n =
     (if n < 0 then CHR ''-'' # zfill 1 (dec_digits (nat (- n)))
      else zfill 2 (dec_digits (nat n)))"

section \<open>The value transformer\<close>

text \<open>
  \<^verbatim>\<open>transform_value(x, mode)\<close>, lines 40 to 55. \<open>transform_body\<close> is the body of the
  \<^verbatim>\<open>try\<close> block, with every exception it can raise as a left value; \<open>transform_value\<close>
  adds the test for \<^verbatim>\<open>None\<close> in front and the handler \<^verbatim>\<open>except Exception: return x\<close>.
\<close>

definition transform_body :: "runtime \<Rightarrow> pyval \<Rightarrow> string \<Rightarrow> error + pyval" where
  "transform_body rt x mode =
     (if mode = ''percent_0_1_to_0_100'' then
        (case py_float rt x of
           Inl e \<Rightarrow> Inl e
         | Inr val \<Rightarrow>
             Inr (PFloat
               (if float_le (Finite 0) val \<and> float_le val (Finite 1)
                then float_round rt (float_mul rt val (Finite 100)) 2
                else float_round rt val 2)))
      else if mode = ''seconds_to_hms'' then
        (case py_float rt x of
           Inl e \<Rightarrow> Inl e
         | Inr f \<Rightarrow>
             (case py_int f of
                Inl e \<Rightarrow> Inl e
              | Inr s \<Rightarrow>
                  (let h = s div 3600;
                       m = (s mod 3600) div 60;
                       sec = s mod 60
                   in Inr (PStr (format_02d h @ '':'' @ format_02d m @ '':'' @ format_02d sec)))))
      else Inr x)"

definition transform_value :: "runtime \<Rightarrow> pyval \<Rightarrow> string \<Rightarrow> pyval" where
  "transform_value rt x mode =
     (if x = PNone then PNone
      else (case transform_body rt x mode of Inl e \<Rightarrow> x | Inr v \<Rightarrow> v))"

section \<open>Configuration\<close>

text \<open>
  A field mapping is one entry of \<^verbatim>\<open>cfg["mappings"]\<close>. The keys \<^verbatim>\<open>name\<close>, \<^verbatim>\<open>unique_id\<close>
  and \<^verbatim>\<open>jsonpath\<close> are read with \<^verbatim>\<open>s[...]\<close> and are always there; the others are read
  with \<^verbatim>\<open>s.get(...)\<close> and may be missing (\<open>None\<close>).
\<close>

record sensor =
  name :: string
  unique_id :: string
  jsonpath :: string
  transform :: "string option"
  icon :: "string option"
  unit :: "string option"
  device_class :: "string option"
  state_class :: "string option"

text \<open>
  The options the bridge reads from \<^verbatim>\<open>cfg\<close>: \<open>discovery_prefix\<close> is
  \<^verbatim>\<open>cfg["mqtt"]["discovery_prefix"]\<close>, \<open>log_raw_frames\<close> and \<open>raw_frames_limit\<close> are the
  two keys of \<^verbatim>\<open>cfg["debug"]\<close>.
\<close>

record config =
  ws_url :: string
  base_topic :: string
  discovery_prefix :: string
  device_id :: string
  device_name :: string
  mappings :: "sensor list"
  log_raw_frames :: bool
  raw_frames_limit :: int

section \<open>Discovery records\<close>

text \<open>
  \<^verbatim>\<open>to_discovery(sensor, cfg)\<close>, lines 19 to 38. A Python dict is an association list in
  insertion order; \<open>AList.update\<close> is the assignment \<^verbatim>\<open>disc[k] = v\<close>. \<open>discovery_base\<close> is
  the dict of lines 20 to 31, \<open>set_if_truthy\<close> one of the three statements that follow. The tests
  \<^verbatim>\<open>if sensor.get("unit"):\<close> and \<^verbatim>\<open>sensor.get("icon") or ...\<close> are tests of truthiness: a
  missing key and an empty string both fail them.
\<close>

definition set_if_truthy ::
  "string \<Rightarrow> string option \<Rightarrow> (string \<times> pyval) list \<Rightarrow> (string \<times> pyval) list" where
  "set_if_truthy key v disc =
     (case v of
        None \<Rightarrow> disc
      | Some u \<Rightarrow> if u = [] then disc else AList.update key (PStr u) disc)"

definition discovery_base :: "sensor \<Rightarrow> config \<Rightarrow> (string \<times> pyval) list" where
  "discovery_base s cfg =
     [(''name'', PStr (name s)),
      (''state_topic'', PStr (base_topic cfg @ ''/state/'' @ unique_id s)),
      (''unique_id'', PStr (unique_id s)),
      (''device'', PDict
         [(''identifiers'', PList [PStr (device_id cfg)]),
          (''manufacturer'', PStr ''Creality''),
          (''name'', PStr (device_name cfg)),
          (''model'', PStr ''K1/K1 Max (WS Bridge)'')]),
      (''icon'', PStr
         (case icon s of
            None \<Rightarrow> ''mdi:printer-3d''
          | Some i \<Rightarrow> if i = [] then ''mdi:printer-3d'' else i))]"

definition to_discovery :: "sensor \<Rightarrow> config \<Rightarrow> (string \<times> pyval) list" where
  "to_discovery s cfg =
     (let disc = discovery_base s cfg;
          disc = set_if_truthy ''unit_of_measurement'' (unit s) disc;
          disc = set_if_truthy ''device_class'' (device_class s) disc;
          disc = set_if_truthy ''state_class'' (state_class s) disc
      in disc)"

section \<open>The publisher\<close>

text \<open>
  What the bridge does to the outside is recorded as a list of actions. A payload is a
  text, or the rendering of a value that the model leaves to the interpreter: \<open>StrOf v\<close>
  is \<^verbatim>\<open>str(v)\<close> for a float, a list or a dict, \<open>JsonOf v\<close> is
  \<^verbatim>\<open>json.dumps(v, separators=(",", ":"))\<close>.
\<close>

datatype payload = Text string | StrOf pyval | JsonOf pyval

datatype logline =
    LogConnecting string
  | LogConnected
  | LogDiscovery string
  | LogRawNonJson string
  | LogRawJson pyval
  | LogWsError string int

datatype action =
    Log logline
  | Publish string payload nat bool
  | Sleep int

text \<open>\<^verbatim>\<open>str(n)\<close> for an integer, and \<^verbatim>\<open>str(value)\<close> as a payload.\<close>

definition str_int :: "int \<Rightarrow> string" where
  "str_int n = (if n < 0 then CHR ''-'' # dec_digits (nat (- n)) else dec_digits (nat n))"

fun py_str :: "pyval \<Rightarrow> payload" where
  "py_str PNone = Text ''None''"
| "py_str (PBool b) = Text (if b then ''True'' else ''False'')"
| "py_str (PInt n) = Text (str_int n)"
| "py_str (PStr s) = Text s"
| "py_str v = StrOf v"

text \<open>
  \<^verbatim>\<open>publish_discovery\<close>, lines 73 to 79: for every mapping, in order, one publication
  (\<open>Publish topic payload qos retain\<close>) and one log line.
\<close>

definition discovery_topic :: "config \<Rightarrow> sensor \<Rightarrow> string" where
  "discovery_topic cfg s =
     discovery_prefix cfg @ ''/sensor/'' @ device_id cfg @ ''/'' @ unique_id s @ ''/config''"

fun publish_discovery_loop :: "config \<Rightarrow> sensor list \<Rightarrow> action list" where
  "publish_discovery_loop cfg [] = []"
| "publish_discovery_loop cfg (s # ss) =
     [Publish (discovery_topic cfg s) (JsonOf (PDict (to_discovery s cfg))) 1 True,
      Log (LogDiscovery (discovery_topic cfg s))]
     @ publish_discovery_loop cfg ss"

definition publish_discovery :: "config \<Rightarrow> action list" where
  "publish_discovery cfg = publish_discovery_loop cfg (mappings cfg)"

text \<open>\<^verbatim>\<open>publish_state(uid, value)\<close>, lines 81 to 84.\<close>

definition publish_state :: "config \<Rightarrow> string \<Rightarrow> pyval \<Rightarrow> action" where
  "publish_state cfg uid v =
     Publish (base_topic cfg @ ''/state/'' @ uid)
       (if v = PNone then Text [] else py_str v) 0 True"

section \<open>The field extractor\<close>

text \<open>
  \<^verbatim>\<open>extract_values(msg)\<close>, lines 86 to 94. The loop over the mappings is a fold over the
  dict \<^verbatim>\<open>out\<close>; \<^verbatim>\<open>s.get("transform", "none")\<close> is the mode, \<^verbatim>\<open>"none"\<close> when the key is
  missing; \<^verbatim>\<open>matches[0] if matches else None\<close> is \<open>first_match\<close>.
\<close>

definition first_match :: "pyval list \<Rightarrow> pyval" where
  "first_match matches = (case matches of [] \<Rightarrow> PNone | v # _ \<Rightarrow> v)"

definition mode_of :: "sensor \<Rightarrow> string" where
  "mode_of s = (case transform s of None \<Rightarrow> ''none'' | Some m \<Rightarrow> m)"

definition extract_one :: "runtime \<Rightarrow> pyval \<Rightarrow> sensor \<Rightarrow> pyval" where
  "extract_one rt msg s =
     transform_value rt (first_match (jsonpath_find rt (jsonpath s) msg)) (mode_of s)"

definition extract_values :: "runtime \<Rightarrow> config \<Rightarrow> pyval \<Rightarrow> (string \<times> pyval) list" where
  "extract_values rt cfg msg =
     fold (\<lambda>s out. AList.update (unique_id s) (extract_one rt msg s) out) (mappings cfg) []"

section \<open>The connection supervisor\<close>

text \<open>
  \<^verbatim>\<open>Bridge.ws_loop\<close>, lines 96 to 122, as a machine that executes one statement per step.
  A label names the line the loop is about to execute:
  \<^item> \<open>L100\<close>: log \<^verbatim>\<open>Connecting to WebSocket\<close>;
  \<^item> \<open>L101\<close>: \<^verbatim>\<open>websockets.connect(...)\<close>, waiting for the session to open or fail;
  \<^item> \<open>L102\<close>: log \<^verbatim>\<open>WebSocket connected.\<close>;
  \<^item> \<open>L103\<close>: \<^verbatim>\<open>self.publish_discovery()\<close>;
  \<^item> \<open>L104\<close>: \<^verbatim>\<open>backoff = 2\<close>;
  \<^item> \<open>L105\<close>: \<^verbatim>\<open>async for msg in ws\<close>, waiting for the next frame (lines 106 to 118 are
    the handling of one frame);
  \<^item> \<open>L120\<close>, \<open>L121\<close>, \<open>L122\<close>: the three statements of the \<^verbatim>\<open>except\<close> handler: the log
    line, \<^verbatim>\<open>asyncio.sleep(backoff)\<close> and \<^verbatim>\<open>backoff = min(backoff * 2, 60)\<close>;
  \<^item> \<open>Lraised\<close>: an exception that line 119 does not catch has left \<^verbatim>\<open>ws_loop\<close>, and
    \<^verbatim>\<open>main\<close> ends the process.
\<close>

datatype label = L100 | L101 | L102 | L103 | L104 | L105 | L120 | L121 | L122 | Lraised

text \<open>The three connection states of the supervisor, read from the label.\<close>

datatype conn_state = Disconnected | Connecting | Connected

fun conn_state_of :: "label \<Rightarrow> conn_state" where
  "conn_state_of L100 = Connecting"
| "conn_state_of L101 = Connecting"
| "conn_state_of L102 = Connected"
| "conn_state_of L103 = Connected"
| "conn_state_of L104 = Connected"
| "conn_state_of L105 = Connected"
| "conn_state_of L120 = Disconnected"
| "conn_state_of L121 = Disconnected"
| "conn_state_of L122 = Disconnected"
| "conn_state_of Lraised = Disconnected"

text \<open>
  The state of the loop: the label, the local variable \<^verbatim>\<open>backoff\<close>, the attribute
  \<^verbatim>\<open>self.raw_left\<close>, the \<^verbatim>\<open>repr\<close> of the exception being handled, and the actions done so
  far.
\<close>

record loop_state =
  pc :: label
  backoff :: int
  raw_left :: int
  exc :: string
  out :: "action list"

text \<open>
  What the network does is the input of the machine: the session opens or the attempt
  raises one of the exceptions the handler catches (\<open>ConnectError\<close>, with its \<^verbatim>\<open>repr\<close>);
  an open session delivers a frame, fails (\<open>CloseError\<close>: \<^verbatim>\<open>ConnectionClosedError\<close> or
  \<^verbatim>\<open>OSError\<close>), or is closed normally, which ends the \<^verbatim>\<open>async for\<close> without an exception.
  The calls into the MQTT client and into \<^verbatim>\<open>print\<close> are taken to return, and the attempt
  to connect to raise nothing outside the classes of line 119.
\<close>

datatype event = ConnectOk | ConnectError string | Frame string | CloseError string | CloseOk

text \<open>
  The state before line 100 is reached for the first time: line 97 sets \<^verbatim>\<open>backoff = 2\<close>,
  and line 66 of \<^verbatim>\<open>__init__\<close> sets \<^verbatim>\<open>raw_left\<close>.
\<close>

definition bridge_init :: "config \<Rightarrow> loop_state" where
  "bridge_init cfg =
     \<lparr>pc = L100, backoff = 2,
      raw_left = (if log_raw_frames cfg then raw_frames_limit cfg else 0),
      exc = [], out = []\<rparr>"

text \<open>
  Lines 106 to 118, the handling of one frame. \<^verbatim>\<open>msg[:500]\<close> is \<open>take 500 msg\<close>; the log
  line of a decoded frame holds \<^verbatim>\<open>json.dumps(data)[:500]\<close>, recorded as \<open>LogRawJson data\<close>.
  Line 108 catches \<^verbatim>\<open>json.JSONDecodeError\<close> only: any other exception of \<^verbatim>\<open>json.loads\<close> passes
  it, passes line 119, whose classes are those of the connection, and leaves the loop.
\<close>

definition log_raw :: "logline \<Rightarrow> loop_state \<Rightarrow> loop_state" where
  "log_raw l st =
     (if 0 < raw_left st
      then st\<lparr>out := out st @ [Log l], raw_left := raw_left st - 1\<rparr>
      else st)"

definition on_frame :: "runtime \<Rightarrow> config \<Rightarrow> string \<Rightarrow> loop_state \<Rightarrow> loop_state" where
  "on_frame rt cfg msg st =
     (case json_loads rt msg of
        JSONDecodeError \<Rightarrow> log_raw (LogRawNonJson (take 500 msg)) st
      | OtherError \<Rightarrow> st\<lparr>pc := Lraised\<rparr>
      | Decoded data \<Rightarrow>
          (let st1 = log_raw (LogRawJson data) st;
               vals = extract_values rt cfg data
           in st1\<lparr>out := out st1 @ map (\<lambda>(uid, val). publish_state cfg uid val) vals\<rparr>))"

text \<open>
  One statement. The result is \<open>None\<close> where the loop waits (at \<open>L101\<close> and \<open>L105\<close>) and
  the network has nothing more to say, or says something that cannot happen there, and
  where the loop has ended (at \<open>Lraised\<close>).
\<close>

fun step ::
  "runtime \<Rightarrow> config \<Rightarrow> loop_state \<times> event list \<Rightarrow> (loop_state \<times> event list) option" where
  "step rt cfg (st, evs) =
     (case pc st of
        L100 \<Rightarrow> Some (st\<lparr>out := out st @ [Log (LogConnecting (ws_url cfg))], pc := L101\<rparr>, evs)
      | L101 \<Rightarrow>
          (case evs of
             ConnectOk # r \<Rightarrow> Some (st\<lparr>pc := L102\<rparr>, r)
           | ConnectError e # r \<Rightarrow> Some (st\<lparr>pc := L120, exc := e\<rparr>, r)
           | _ \<Rightarrow> None)
      | L102 \<Rightarrow> Some (st\<lparr>out := out st @ [Log LogConnected], pc := L103\<rparr>, evs)
      | L103 \<Rightarrow> Some (st\<lparr>out := out st @ publish_discovery cfg, pc := L104\<rparr>, evs)
      | L104 \<Rightarrow> Some (st\<lparr>backoff := 2, pc := L105\<rparr>, evs)
      | L105 \<Rightarrow>
          (case evs of
             Frame msg # r \<Rightarrow> Some (on_frame rt cfg msg st, r)
           | CloseError e # r \<Rightarrow> Some (st\<lparr>pc := L120, exc := e\<rparr>, r)
           | CloseOk # r \<Rightarrow> Some (st\<lparr>pc := L100\<rparr>, r)
           | _ \<Rightarrow> None)
      | L120 \<Rightarrow> Some (st\<lparr>out := out st @ [Log (LogWsError (exc st) (backoff st))], pc := L121\<rparr>, evs)
      | L121 \<Rightarrow> Some (st\<lparr>out := out st @ [Sleep (backoff st)], pc := L122\<rparr>, evs)
      | L122 \<Rightarrow> Some (st\<lparr>backoff := min (backoff st * 2) 60, pc := L100\<rparr>, evs)
      | Lraised \<Rightarrow> None)"

text \<open>A bounded number of statements.\<close>

fun steps ::
  "nat \<Rightarrow> runtime \<Rightarrow> config \<Rightarrow> loop_state \<times> event list \<Rightarrow> loop_state \<times> event list" where
  "steps 0 rt cfg c = c"
| "steps (Suc n) rt cfg c =
     (case step rt cfg c of None \<Rightarrow> c | Some c' \<Rightarrow> steps n rt cfg c')"

text \<open>
  The loop itself returns only by an exception. \<open>ws_loop\<close> runs it on a finite list of
  events, until it waits and no event is left, or until it has ended; the measure counts
  the statements that can still be executed before the next event is needed.
\<close>

fun label_rank :: "label \<Rightarrow> nat" where
  "label_rank L101 = 0"
| "label_rank Lraised = 0"
| "label_rank L105 = 0"
| "label_rank L100 = 1"
| "label_rank L104 = 1"
| "label_rank L122 = 2"
| "label_rank L103 = 2"
| "label_rank L121 = 3"
| "label_rank L102 = 3"
| "label_rank L120 = 4"

definition loop_measure :: "loop_state \<times> event list \<Rightarrow> nat" where
  "loop_measure c = 5 * length (snd c) + label_rank (pc (fst c))"

function ws_loop :: "runtime \<Rightarrow> config \<Rightarrow> loop_state \<times> event list \<Rightarrow> loop_state \<times> event list" where
  "ws_loop rt cfg c = (case step rt cfg c of None \<Rightarrow> c | Some c' \<Rightarrow> ws_loop rt cfg c')"
  by pat_completeness auto
termination
  by (relation "measure (\<lambda>(rt, cfg, c). loop_measure c)")
     (auto simp: loop_measure_def on_frame_def log_raw_def Let_def
           split: label.splits list.splits event.splits decode_result.splits)

text \<open>The durations of the sleeps among a list of actions.\<close>

fun sleeps :: "action list \<Rightarrow> int list" where
  "sleeps [] = []"
| "sleeps (Sleep d # as) = d # sleeps as"
| "sleeps (a # as) = sleeps as"

text \<open>The publications among a list of actions.\<close>

fun is_publish :: "action \<Rightarrow> bool" where
  "is_publish (Publish t p q r) = True"
| "is_publish a = False"

section \<open>Reading strings of digits\<close>

text \<open>
  The properties of \<^verbatim>\<open>HH:MM:SS\<close> strings are stated on what a reader of the string sees:
  \<open>is_digits s\<close> says that \<open>s\<close> consists of decimal digits, \<open>dec_value s\<close> is the number
  they denote.
\<close>

definition is_digit :: "char \<Rightarrow> bool" where
  "is_digit c = (c \<in> set ''0123456789'')"

definition is_digits :: "string \<Rightarrow> bool" where
  "is_digits s = list_all is_digit s"

definition digit_value :: "char \<Rightarrow> nat" where
  "digit_value c = of_char c - 48"

definition dec_value :: "string \<Rightarrow> nat" where
  "dec_value s = foldl (\<lambda>a c. 10 * a + digit_value c) 0 s"

text \<open>
  The integers that \<^verbatim>\<open>float\<close> holds exactly: \<^verbatim>\<open>float(n)\<close> does not raise and its value is \<open>n\<close>.
\<close>

definition exact_double :: "int \<Rightarrow> bool" where
  "exact_double n = (float_of_int n = Inr (Finite (of_int n)))"

text \<open>The terms of the backoff sequence: 2, 4, 8, 16, 32, 60, 60, ...\<close>

definition backoff_seq :: "nat \<Rightarrow> int list" where
  "backoff_seq n = map (\<lambda>i. min (2 * 2 ^ i) 60) [0..<n]"

text \<open>
  The sleeps of \<open>n\<close> failures in a row when the first one finds \<^verbatim>\<open>backoff = b\<close>: line 121
  sleeps \<open>b\<close>, line 122 doubles it up to 60.
\<close>

fun backoff_run :: "int \<Rightarrow> nat \<Rightarrow> int list" where
  "backoff_run b 0 = []"
| "backoff_run b (Suc n) = b # backoff_run (min (b * 2) 60) n"

section \<open>Example data\<close>

text \<open>
  The theorems below hold for every runtime. They are instantiated on \<open>example_rt\<close>, which
  agrees with the interpreter on the inputs it accepts: it parses strings of digits,
  multiplies and rounds without error (so it is right where the exact result is a double), decodes
  the two frames of \<open>example_frames\<close> and evaluates paths of the form \<^verbatim>\<open>$.key\<close>, and the
  path \<^verbatim>\<open>$.*\<close>, whose matches are all the values of the object, in its order. The frame
  \<open>binary_frame\<close> is the binary message \<^verbatim>\<open>b'\xff'\<close>, which is not UTF-8: \<^verbatim>\<open>json.loads\<close> raises
  \<^verbatim>\<open>UnicodeDecodeError\<close> on it. On every other text it raises \<^verbatim>\<open>JSONDecodeError\<close>.
\<close>

definition round_half_even :: "rat \<Rightarrow> int" where
  "round_half_even y =
     (let f = \<lfloor>y\<rfloor>; d = y - of_int f
      in if d < 1 / 2 then f else if 1 / 2 < d then f + 1 else if even f then f else f + 1)"

definition dq :: char where
  "dq = CHR 0x22"

definition example_frames :: "(string \<times> pyval) list" where
  "example_frames =
     [(''{'' @ [dq] @ ''progress'' @ [dq] @ '':0.5}'',
       PDict [(''progress'', PFloat (Finite (1 / 2)))]),
      (''{'' @ [dq] @ ''time_left'' @ [dq] @ '': 125}'',
       PDict [(''time_left'', PInt 125)])]"

definition binary_frame :: string where
  "binary_frame = [CHR 0xFF]"

definition example_rt :: runtime where
  "example_rt =
     \<lparr>float_of_str =
        (\<lambda>s. if s \<noteq> [] \<and> is_digits s
             then (case float_of_int (int (dec_value s)) of
                     Inl e \<Rightarrow> Some PosInf
                   | Inr f \<Rightarrow> Some f)
             else None),
      float_mul =
        (\<lambda>a b. case (a, b) of (Finite p, Finite q) \<Rightarrow> Finite (p * q) | _ \<Rightarrow> NaN),
      float_round =
        (\<lambda>a n. case a of
             Finite q \<Rightarrow> Finite (of_int (round_half_even (q * 10 ^ nat n)) / 10 ^ nat n)
           | _ \<Rightarrow> a),
      json_loads =
        (\<lambda>s. case map_of example_frames s of
             Some v \<Rightarrow> Decoded v
           | None \<Rightarrow> if s = binary_frame then OtherError else JSONDecodeError),
      jsonpath_find =
        (\<lambda>p msg. case p of
             CHR ''$'' # CHR ''.'' # key \<Rightarrow>
               (case msg of
                  PDict kvs \<Rightarrow>
                    (if key = ''*'' then map snd kvs
                     else (case map_of kvs key of None \<Rightarrow> [] | Some v \<Rightarrow> [v]))
                | _ \<Rightarrow> [])
           | _ \<Rightarrow> [])\<rparr>"

definition sensor_p :: sensor where
  "sensor_p =
     \<lparr>name = ''Progress'', unique_id = ''p'', jsonpath = ''$.progress'',
      transform = Some ''percent_0_1_to_0_100'', icon = None, unit = Some ''%'',
      device_class = None, state_class = Some ''measurement''\<rparr>"

definition sensor_t :: sensor where
  "sensor_t =
     \<lparr>name = ''Time left'', unique_id = ''t'', jsonpath = ''$.time_left'',
      transform = Some ''seconds_to_hms'', icon = Some ''mdi:timer'', unit = None,
      device_class = None, state_class = None\<rparr>"

text \<open>A mapping whose unit is present and empty.\<close>

definition sensor_e :: sensor where
  "sensor_e =
     \<lparr>name = ''Layer'', unique_id = ''layer'', jsonpath = ''$.layer'',
      transform = None, icon = Some [], unit = Some [],
      device_class = None, state_class = None\<rparr>"

text \<open>A mapping with no transform, and one whose path has several matches.\<close>

definition sensor_l :: sensor where
  "sensor_l =
     \<lparr>name = ''Layer'', unique_id = ''l'', jsonpath = ''$.layer'',
      transform = None, icon = None, unit = None,
      device_class = None, state_class = None\<rparr>"

definition sensor_a :: sensor where
  "sensor_a =
     \<lparr>name = ''Any'', unique_id = ''a'', jsonpath = ''$.*'',
      transform = Some ''seconds_to_hms'', icon = None, unit = None,
      device_class = None, state_class = None\<rparr>"

definition example_cfg :: config where
  "example_cfg =
     \<lparr>ws_url = ''ws://k1max.local:9999'', base_topic = ''k1max'',
      discovery_prefix = ''homeassistant'', device_id = ''k1max_1'', device_name = ''K1 Max'',
      mappings = [sensor_p, sensor_t], log_raw_frames = True, raw_frames_limit = 1\<rparr>"

definition example_cfg4 :: config where
  "example_cfg4 = example_cfg\<lparr>mappings := [sensor_p, sensor_t, sensor_l, sensor_a]\<rparr>"

definition example_msg :: pyval where
  "example_msg = PDict [(''time_left'', PInt 125), (''layer'', PInt 3), (''state'', PStr ''printing'')]"

text \<open>
  Mode \<^verbatim>\<open>percent_0_1_to_0_100\<close> as the specification words it, on exact numbers: a value of
  the closed interval from 0 to 1 is multiplied by 100 and rounded to two decimal places,
  any other value is rounded to two decimal places.
\<close>

definition spec_round2 :: "rat \<Rightarrow> rat" where
  "spec_round2 q = of_int (round_half_even (q * 100)) / 100"

definition spec_percent :: "rat \<Rightarrow> rat" where
  "spec_percent v = (if 0 \<le> v \<and> v \<le> 1 then spec_round2 (v * 100) else spec_round2 v)"

section \<open>Properties of the value transformer\<close>

declare bit_length.simps [simp del]
declare dec_digits.simps [simp del]

lemma transform_value_None: "transform_value rt PNone mode = PNone"
  by (simp add: transform_value_def)

lemma py_float_not_None: "py_float rt x = Inr v \<Longrightarrow> x \<noteq> PNone"
  by (cases x) simp_all

text \<open>
  C10. A mode that is neither \<^verbatim>\<open>percent_0_1_to_0_100\<close> nor \<^verbatim>\<open>seconds_to_hms\<close>, whatever its
  name, is the identity: \<^verbatim>\<open>transform_value(x, mode)\<close> returns \<^verbatim>\<open>x\<close> unchanged, for every
  \<^verbatim>\<open>x\<close> (for \<^verbatim>\<open>None\<close> too).
\<close>

theorem transform_value_other_mode:
  assumes "mode \<noteq> ''percent_0_1_to_0_100''" and "mode \<noteq> ''seconds_to_hms''"
  shows "transform_value rt x mode = x"
  using assms by (simp add: transform_value_def transform_body_def)

theorem transform_value_other_mode_witness:
  "transform_value example_rt (PStr ''printing'') ''none'' = PStr ''printing''
   \<and> transform_value example_rt (PInt 125) ''hms'' = PInt 125
   \<and> transform_value example_rt (PFloat (Finite (1 / 2))) [] = PFloat (Finite (1 / 2))"
  using transform_value_other_mode [of "''none''" example_rt "PStr ''printing''"]
    transform_value_other_mode [of "''hms''" example_rt "PInt 125"]
    transform_value_other_mode [of "[]" example_rt "PFloat (Finite (1 / 2))"]
  by simp

text \<open>
  C8. In both numeric modes an input that \<^verbatim>\<open>float\<close> rejects (it raises \<^verbatim>\<open>ValueError\<close>,
  \<^verbatim>\<open>TypeError\<close> or \<^verbatim>\<open>OverflowError\<close>) comes back unchanged, and so does, in mode
  \<^verbatim>\<open>seconds_to_hms\<close>, a float that \<^verbatim>\<open>int\<close> rejects. \<open>transform_value\<close> is a total function
  into values: no exception leaves it. On \<^verbatim>\<open>None\<close> the result is \<^verbatim>\<open>None\<close> in every mode.
\<close>

theorem transform_value_lenient:
  "(py_float rt x = Inl e \<longrightarrow>
      transform_value rt x ''percent_0_1_to_0_100'' = x
      \<and> transform_value rt x ''seconds_to_hms'' = x)
   \<and> (py_float rt x = Inr f \<and> py_int f = Inl e \<longrightarrow>
      transform_value rt x ''seconds_to_hms'' = x)
   \<and> transform_value rt PNone mode = PNone"
  by (simp add: transform_value_def transform_body_def)

theorem transform_value_lenient_witness:
  "py_float example_rt (PStr ''idle'') = Inl ValueError
   \<and> transform_value example_rt (PStr ''idle'') ''percent_0_1_to_0_100'' = PStr ''idle''
   \<and> transform_value example_rt (PStr ''idle'') ''seconds_to_hms'' = PStr ''idle''
   \<and> py_float example_rt (PFloat NaN) = Inr NaN \<and> py_int NaN = Inl ValueError
   \<and> transform_value example_rt (PFloat NaN) ''seconds_to_hms'' = PFloat NaN
   \<and> transform_value example_rt PNone ''seconds_to_hms'' = PNone"
proof -
  have a: "py_float example_rt (PStr ''idle'') = Inl ValueError"
    by (simp add: example_rt_def is_digits_def is_digit_def)
  have b: "py_float example_rt (PFloat NaN) = Inr NaN \<and> py_int NaN = Inl ValueError"
    by simp
  show ?thesis
    using a b
      transform_value_lenient [of example_rt "PStr ''idle''" ValueError NaN "''seconds_to_hms''"]
      transform_value_lenient [of example_rt "PFloat NaN" ValueError NaN "''seconds_to_hms''"]
    by simp
qed

subsection \<open>Decimal digits\<close>

lemma digit_cases: "d < 10 \<Longrightarrow> d \<in> {0, 1, 2, 3, 4, 5, 6, 7, 8, 9 :: nat}"
  by auto

lemma digit_value_digit_char: "d < 10 \<Longrightarrow> digit_value (digit_char d) = d"
  using digit_cases [of d] by (auto simp: digit_char_def digit_value_def)

lemma is_digit_digit_char: "d < 10 \<Longrightarrow> is_digit (digit_char d)"
  using digit_cases [of d] by (auto simp: digit_char_def is_digit_def)

lemma dec_value_snoc: "dec_value (s @ [c]) = 10 * dec_value s + digit_value c"
  by (simp add: dec_value_def)

lemma dec_digits_lt10: "n < 10 \<Longrightarrow> dec_digits n = [digit_char n]"
  by (simp add: dec_digits.simps [of n])

lemma dec_digits_ge10:
  "10 \<le> n \<Longrightarrow> dec_digits n = dec_digits (n div 10) @ [digit_char (n mod 10)]"
  by (simp add: dec_digits.simps [of n])

lemma dec_value_dec_digits: "dec_value (dec_digits n) = n"
proof (induction n rule: dec_digits.induct)
  case (1 n)
  show ?case
  proof (cases "n < 10")
    case True
    then show ?thesis
      by (simp add: dec_digits_lt10 dec_value_def digit_value_digit_char)
  next
    case False
    with "1.IH" have "dec_value (dec_digits (n div 10)) = n div 10" by simp
    with False show ?thesis
      by (simp add: dec_digits_ge10 dec_value_snoc digit_value_digit_char)
  qed
qed

lemma is_digits_dec_digits: "is_digits (dec_digits n)"
proof (induction n rule: dec_digits.induct)
  case (1 n)
  show ?case
  proof (cases "n < 10")
    case True
    then show ?thesis
      by (simp add: dec_digits_lt10 is_digits_def is_digit_digit_char)
  next
    case False
    with "1.IH" have "is_digits (dec_digits (n div 10))" by simp
    with False show ?thesis
      by (simp add: dec_digits_ge10 is_digits_def is_digit_digit_char)
  qed
qed

lemma length_dec_digits_pos: "0 < length (dec_digits n)"
  by (cases "n < 10") (simp_all add: dec_digits_lt10 dec_digits_ge10)

lemma length_dec_digits_small: "n < 100 \<Longrightarrow> length (dec_digits n) \<le> 2"
  by (cases "n < 10") (simp_all add: dec_digits_lt10 dec_digits_ge10)

lemma length_dec_digits_large:
  assumes "100 \<le> n"
  shows "3 \<le> length (dec_digits n)"
proof -
  from assms have "10 \<le> n" and "10 \<le> n div 10"
    by simp_all
  then have "length (dec_digits n) = length (dec_digits (n div 10 div 10)) + 2"
    by (simp add: dec_digits_ge10)
  with length_dec_digits_pos [of "n div 10 div 10"] show ?thesis
    by linarith
qed

lemma digit_char_zero: "d < 10 \<Longrightarrow> digit_char d = CHR ''0'' \<Longrightarrow> d = 0"
  using digit_cases [of d] by (auto simp: digit_char_def)

lemma dec_digits_leading: "hd (dec_digits n) = CHR ''0'' \<Longrightarrow> n = 0"
proof (induction n rule: dec_digits.induct)
  case (1 n)
  show ?case
  proof (cases "n < 10")
    case True
    with "1.prems" show ?thesis
      by (simp add: dec_digits_lt10 digit_char_zero)
  next
    case False
    have "dec_digits (n div 10) \<noteq> []"
      using length_dec_digits_pos [of "n div 10"] by auto
    with False "1.prems" have "hd (dec_digits (n div 10)) = CHR ''0''"
      by (simp add: dec_digits_ge10)
    with False "1.IH" have "n div 10 = 0" by simp
    with False show ?thesis by simp
  qed
qed

lemma str_int_digits:
  "\<exists>ds. str_int n = (if n < 0 then CHR ''-'' # ds else ds)
        \<and> ds \<noteq> [] \<and> is_digits ds \<and> int (dec_value ds) = \<bar>n\<bar>
        \<and> (hd ds = CHR ''0'' \<longrightarrow> n = 0 \<and> ds = ''0'')"
proof -
  define ds where "ds = dec_digits (nat \<bar>n\<bar>)"
  have s: "str_int n = (if n < 0 then CHR ''-'' # ds else ds)"
    by (simp add: str_int_def ds_def)
  have ne: "ds \<noteq> []"
    using length_dec_digits_pos [of "nat \<bar>n\<bar>"] by (auto simp: ds_def)
  have d: "is_digits ds"
    by (simp add: ds_def is_digits_dec_digits)
  have v: "int (dec_value ds) = \<bar>n\<bar>"
    by (simp add: ds_def dec_value_dec_digits)
  have z: "hd ds = CHR ''0'' \<longrightarrow> n = 0 \<and> ds = ''0''"
  proof
    assume "hd ds = CHR ''0''"
    then have "nat \<bar>n\<bar> = 0"
      unfolding ds_def by (rule dec_digits_leading)
    then show "n = 0 \<and> ds = ''0''"
      by (simp add: ds_def dec_digits_lt10 digit_char_def)
  qed
  from s ne d v z show ?thesis by blast
qed

lemma str_int_examples:
  "str_int 125 = ''125''" "str_int (- 5) = ''-5''" "str_int 0 = ''0''"
  by (simp_all add: str_int_def dec_digits.simps digit_char_def)

lemma dec_value_zeros: "dec_value (replicate k CHR ''0'' @ s) = dec_value s"
  by (induction k) (simp_all add: dec_value_def digit_value_def)

lemma dec_value_zfill: "dec_value (zfill w s) = dec_value s"
  by (simp add: zfill_def dec_value_zeros)

lemma is_digit_zero: "is_digit CHR ''0''"
  by (simp add: is_digit_def)

lemma is_digits_zfill: "is_digits s \<Longrightarrow> is_digits (zfill w s)"
  by (auto simp: zfill_def is_digits_def list_all_iff is_digit_zero)

lemma length_zfill: "length (zfill w s) = max w (length s)"
  by (simp add: zfill_def)

text \<open>What \<^verbatim>\<open>f"{n:02d}"\<close> prints for a number that is not negative.\<close>

lemma format_02d_nonneg:
  assumes "0 \<le> n"
  shows "is_digits (format_02d n)" and "int (dec_value (format_02d n)) = n"
    and "2 \<le> length (format_02d n)" and "n < 100 \<Longrightarrow> length (format_02d n) = 2"
    and "100 \<le> n \<Longrightarrow> 3 \<le> length (format_02d n)"
proof -
  from assms have f: "format_02d n = zfill 2 (dec_digits (nat n))"
    by (simp add: format_02d_def)
  show "is_digits (format_02d n)"
    by (simp add: f is_digits_zfill is_digits_dec_digits)
  show "int (dec_value (format_02d n)) = n"
    using assms by (simp add: f dec_value_zfill dec_value_dec_digits)
  show "2 \<le> length (format_02d n)"
    by (simp add: f length_zfill)
  show "length (format_02d n) = 2" if "n < 100"
    using that length_dec_digits_small [of "nat n"] by (simp add: f length_zfill)
  show "3 \<le> length (format_02d n)" if "100 \<le> n"
  proof -
    from that have "100 \<le> nat n" by simp
    then have "3 \<le> length (dec_digits (nat n))" by (rule length_dec_digits_large)
    then show ?thesis by (simp add: f length_zfill)
  qed
qed

subsection \<open>Integers that a double holds exactly\<close>

lemma bit_length_le: "a < 2 ^ k \<Longrightarrow> bit_length a \<le> k"
proof (induction k arbitrary: a)
  case 0
  then show ?case by (simp add: bit_length.simps)
next
  case (Suc k)
  show ?case
  proof (cases "a = 0")
    case True
    then show ?thesis by (simp add: bit_length.simps)
  next
    case False
    from Suc.prems have "a div 2 < 2 ^ k" by auto
    then have "bit_length (a div 2) \<le> k" by (rule Suc.IH)
    with False show ?thesis by (subst bit_length.simps) simp
  qed
qed

lemma exact_double_small:
  assumes "\<bar>n\<bar> < 2 ^ 53"
  shows "exact_double n"
proof -
  from assms have "nat \<bar>n\<bar> < 2 ^ 53"
    by (simp add: nat_less_iff)
  then have k: "bit_length (nat \<bar>n\<bar>) \<le> 53"
    by (rule bit_length_le)
  then have r: "round53 (nat \<bar>n\<bar>) = nat \<bar>n\<bar>"
    by (simp add: round53_def)
  have "(2::nat) ^ 53 < 2 ^ 1024"
    by (rule power_strict_increasing) simp_all
  with \<open>nat \<bar>n\<bar> < 2 ^ 53\<close> have "\<not> (2::nat) ^ 1024 \<le> nat \<bar>n\<bar>"
    by linarith
  moreover have "sgn n * int (nat \<bar>n\<bar>) = n"
    by (simp add: mult_sgn_abs)
  ultimately show ?thesis
    by (simp add: exact_double_def float_of_int_def r)
qed

lemma py_int_of_int: "py_int (Finite (of_int s)) = Inr s"
  by simp

subsection \<open>Values of \<^verbatim>\<open>float\<close> on integers\<close>

text \<open>
  The conversion on the integers around \<open>2^53\<close>, where ties go to the even significand, and
  at the top of the range: the largest integer that still converts, and the first that
  raises \<^verbatim>\<open>OverflowError\<close>.
\<close>

lemma float_of_int_examples:
  "float_of_int 9007199254740992 = Inr (Finite 9007199254740992)"
  "float_of_int 9007199254740993 = Inr (Finite 9007199254740992)"
  "float_of_int 9007199254740995 = Inr (Finite 9007199254740996)"
  "float_of_int (- 9007199254740993) = Inr (Finite (- 9007199254740992))"
  "float_of_int (2 ^ 1024 - 2 ^ 970 - 1) = Inr (Finite (2 ^ 1024 - 2 ^ 971))"
  "float_of_int (2 ^ 1024 - 2 ^ 970) = Inl OverflowError"
  by (simp_all add: float_of_int_def round53_def bit_length.simps Let_def)

subsection \<open>Mode \<^verbatim>\<open>percent_0_1_to_0_100\<close>\<close>

text \<open>
  C3, as amended. In mode \<^verbatim>\<open>percent_0_1_to_0_100\<close>, for every numeric input whose value
  \<open>v\<close> is a double, that is a float, or an integer that a double holds exactly (every
  integer below \<open>2^53\<close> in magnitude is one): if \<open>0.0 <= v <= 1.0\<close> the result is
  \<^verbatim>\<open>round(v * 100.0, 2)\<close>, otherwise it is \<^verbatim>\<open>round(v, 2)\<close>, not rescaled. For a finite \<open>v\<close> of
  value \<open>q\<close> the test is \<open>0 \<le> q \<and> q \<le> 1\<close>: both ends of the interval are rescaled.
\<close>

theorem transform_value_percent:
  assumes "x = PFloat v \<or> (\<exists>n. x = PInt n \<and> exact_double n \<and> v = Finite (of_int n))"
  shows "(float_le (Finite 0) v \<and> float_le v (Finite 1) \<longrightarrow>
            transform_value rt x ''percent_0_1_to_0_100''
              = PFloat (float_round rt (float_mul rt v (Finite 100)) 2))
         \<and> (\<not> (float_le (Finite 0) v \<and> float_le v (Finite 1)) \<longrightarrow>
            transform_value rt x ''percent_0_1_to_0_100'' = PFloat (float_round rt v 2))
         \<and> (\<forall>q. v = Finite q \<longrightarrow>
              (float_le (Finite 0) v \<and> float_le v (Finite 1)) = (0 \<le> q \<and> q \<le> 1))"
proof -
  from assms have f: "py_float rt x = Inr v"
    by (auto simp: exact_double_def)
  then show ?thesis
    using py_float_not_None [OF f]
    by (simp add: transform_value_def transform_body_def)
qed

theorem transform_value_percent_witness:
  "transform_value example_rt (PFloat (Finite (1 / 2))) ''percent_0_1_to_0_100''
       = PFloat (Finite 50)
   \<and> transform_value example_rt (PFloat (Finite 1)) ''percent_0_1_to_0_100''
       = PFloat (Finite 100)
   \<and> transform_value example_rt (PFloat (Finite (3 / 2))) ''percent_0_1_to_0_100''
       = PFloat (Finite (3 / 2))
   \<and> transform_value example_rt (PFloat NaN) ''percent_0_1_to_0_100'' = PFloat NaN
   \<and> exact_double 87
   \<and> transform_value example_rt (PInt 87) ''percent_0_1_to_0_100'' = PFloat (Finite 87)
   \<and> exact_double 1
   \<and> transform_value example_rt (PInt 1) ''percent_0_1_to_0_100'' = PFloat (Finite 100)"
proof -
  have e: "exact_double 87" "exact_double 1"
    by (rule exact_double_small, simp)+
  have r: "float_round example_rt (float_mul example_rt (Finite (1 / 2)) (Finite 100)) 2 = Finite 50"
    "float_round example_rt (float_mul example_rt (Finite 1) (Finite 100)) 2 = Finite 100"
    "float_round example_rt (Finite (3 / 2)) 2 = Finite (3 / 2)"
    "float_round example_rt NaN 2 = NaN"
    "float_round example_rt (Finite 87) 2 = Finite 87"
    by (simp_all add: example_rt_def round_half_even_def)
  show ?thesis
    using e r
      transform_value_percent [where x = "PFloat (Finite (1 / 2))" and v = "Finite (1 / 2)"
        and rt = example_rt]
      transform_value_percent [where x = "PFloat (Finite 1)" and v = "Finite 1"
        and rt = example_rt]
      transform_value_percent [where x = "PFloat (Finite (3 / 2))" and v = "Finite (3 / 2)"
        and rt = example_rt]
      transform_value_percent [where x = "PFloat NaN" and v = NaN and rt = example_rt]
      transform_value_percent [where x = "PInt 87" and v = "Finite 87" and rt = example_rt]
      transform_value_percent [where x = "PInt 1" and v = "Finite 1" and rt = example_rt]
    by simp
qed

text \<open>
  C3 as it is stated fails on integers that a double does not hold. The integer
  \<open>2^53 + 1 = 9007199254740993\<close> lies outside the interval and rounded to two decimal
  places it is itself; \<^verbatim>\<open>float\<close> rounds it to \<open>2^53\<close> first, and the result is
  \<^verbatim>\<open>round(9007199254740992.0, 2)\<close>, for every implementation of \<^verbatim>\<open>round\<close>: the value
  9007199254740992.0 on the example runtime.
\<close>

theorem transform_value_percent_counterexample:
  "transform_value example_rt (PInt 9007199254740993) ''percent_0_1_to_0_100''
     = PFloat (Finite 9007199254740992)
   \<and> spec_percent 9007199254740993 = 9007199254740993
   \<and> (\<forall>rt. transform_value rt (PInt 9007199254740993) ''percent_0_1_to_0_100''
        = PFloat (float_round rt (Finite 9007199254740992) 2))"
proof -
  have a: "transform_value rt (PInt 9007199254740993) ''percent_0_1_to_0_100''
        = PFloat (float_round rt (Finite 9007199254740992) 2)" for rt
    by (simp add: transform_value_def transform_body_def float_of_int_examples)
  have b: "float_round example_rt (Finite 9007199254740992) 2 = Finite 9007199254740992"
    by (simp add: example_rt_def round_half_even_def)
  have c: "spec_percent 9007199254740993 = 9007199254740993"
    by (simp add: spec_percent_def spec_round2_def round_half_even_def)
  show ?thesis
    using a b c by simp
qed

subsection \<open>Mode \<^verbatim>\<open>seconds_to_hms\<close>\<close>

text \<open>
  Whatever the input, once \<^verbatim>\<open>int(float(x))\<close> has given a number \<open>s \<ge> 0\<close>, the result
  is the string of its hours, minutes and seconds.
\<close>

lemma hms_of_parsed:
  assumes "py_float rt x = Inr f" and "py_int f = Inr s" and "0 \<le> s"
  shows "\<exists>hh mm ss.
           transform_value rt x ''seconds_to_hms'' = PStr (hh @ '':'' @ mm @ '':'' @ ss)
           \<and> is_digits hh \<and> is_digits mm \<and> is_digits ss
           \<and> 2 \<le> length hh \<and> length mm = 2 \<and> length ss = 2
           \<and> 3600 * int (dec_value hh) + 60 * int (dec_value mm) + int (dec_value ss) = s
           \<and> dec_value mm < 60 \<and> dec_value ss < 60
           \<and> (360000 \<le> s \<longrightarrow> 3 \<le> length hh)"
proof -
  define h m sec where "h = s div 3600" and "m = (s mod 3600) div 60" and "sec = s mod 60"
  have h0: "0 \<le> h" and m0: "0 \<le> m" and sec0: "0 \<le> sec"
    using assms(3) by (simp_all add: h_def m_def sec_def pos_imp_zdiv_nonneg_iff)
  have m60: "m < 60" and sec60: "sec < 60"
    by (simp_all add: m_def sec_def)
  have low: "s mod 3600 mod 60 = s mod 60"
    by (simp add: mod_mod_cancel)
  have "60 * (s mod 3600 div 60) + s mod 3600 mod 60 = s mod 3600"
    by (rule mult_div_mod_eq)
  then have "60 * m + sec = s mod 3600"
    by (simp only: low m_def sec_def)
  moreover have "3600 * h + s mod 3600 = s"
    unfolding h_def by (rule mult_div_mod_eq)
  ultimately have sum: "3600 * h + 60 * m + sec = s"
    by linarith
  have wide: "100 \<le> h" if "360000 \<le> s"
  proof -
    from that have "360000 div 3600 \<le> s div 3600"
      by (rule zdiv_mono1) simp
    then show ?thesis by (simp add: h_def)
  qed
  have res: "transform_value rt x ''seconds_to_hms''
      = PStr (format_02d h @ '':'' @ format_02d m @ '':'' @ format_02d sec)"
    using assms(1,2) py_float_not_None [OF assms(1)]
    by (simp add: transform_value_def transform_body_def Let_def h_def m_def sec_def)
  have vh: "int (dec_value (format_02d h)) = h"
    and vm: "int (dec_value (format_02d m)) = m"
    and vs: "int (dec_value (format_02d sec)) = sec"
    using format_02d_nonneg(2) h0 m0 sec0 by simp_all
  have lm: "dec_value (format_02d m) < 60" and ls: "dec_value (format_02d sec) < 60"
    using vm vs m60 sec60 by linarith+
  have wm: "length (format_02d m) = 2" and ws: "length (format_02d sec) = 2"
    using format_02d_nonneg(4) m0 sec0 m60 sec60 by simp_all
  have wh: "360000 \<le> s \<longrightarrow> 3 \<le> length (format_02d h)"
    using wide format_02d_nonneg(5) [OF h0] by blast
  have total: "3600 * int (dec_value (format_02d h)) + 60 * int (dec_value (format_02d m))
      + int (dec_value (format_02d sec)) = s"
    using sum by (simp only: vh vm vs)
  show ?thesis
  proof (intro exI conjI)
    show "transform_value rt x ''seconds_to_hms''
        = PStr (format_02d h @ '':'' @ format_02d m @ '':'' @ format_02d sec)"
      by (rule res)
    show "is_digits (format_02d h)" "is_digits (format_02d m)" "is_digits (format_02d sec)"
      using format_02d_nonneg(1) h0 m0 sec0 by simp_all
    show "2 \<le> length (format_02d h)"
      using format_02d_nonneg(3) h0 by simp
  qed (rule wm ws total lm ls wh)+
qed

text \<open>
  C4, as amended. For every integer \<open>s \<ge> 0\<close> that a double holds exactly (every
  \<open>s < 2^53\<close> is one), \<^verbatim>\<open>transform_value(s, "seconds_to_hms")\<close> is a string \<^verbatim>\<open>HH:MM:SS\<close> of
  three fields of digits: minutes and seconds have two digits and are below 60, hours
  have at least two digits, and three or more from 100 hours on, and
  \<open>3600 * H + 60 * M + S = s\<close>.
\<close>

theorem transform_value_hms:
  assumes "0 \<le> s" and "exact_double s"
  shows "\<exists>hh mm ss.
           transform_value rt (PInt s) ''seconds_to_hms'' = PStr (hh @ '':'' @ mm @ '':'' @ ss)
           \<and> is_digits hh \<and> is_digits mm \<and> is_digits ss
           \<and> 2 \<le> length hh \<and> length mm = 2 \<and> length ss = 2
           \<and> 3600 * int (dec_value hh) + 60 * int (dec_value mm) + int (dec_value ss) = s
           \<and> dec_value mm < 60 \<and> dec_value ss < 60
           \<and> (360000 \<le> s \<longrightarrow> 3 \<le> length hh)"
proof -
  from assms(2) have "py_float rt (PInt s) = Inr (Finite (of_int s))"
    by (simp add: exact_double_def)
  then show ?thesis
    using py_int_of_int assms(1) by (rule hms_of_parsed)
qed

lemmas hms_eval =
  transform_value_def transform_body_def float_of_int_def round53_def bit_length.simps
  format_02d_def zfill_def dec_digits.simps digit_char_def Let_def

theorem transform_value_hms_witness:
  "exact_double 360000
   \<and> (\<exists>hh mm ss.
         transform_value example_rt (PInt 360000) ''seconds_to_hms''
           = PStr (hh @ '':'' @ mm @ '':'' @ ss)
         \<and> is_digits hh \<and> is_digits mm \<and> is_digits ss
         \<and> 2 \<le> length hh \<and> length mm = 2 \<and> length ss = 2
         \<and> 3600 * int (dec_value hh) + 60 * int (dec_value mm) + int (dec_value ss) = 360000
         \<and> dec_value mm < 60 \<and> dec_value ss < 60 \<and> 3 \<le> length hh)
   \<and> transform_value example_rt (PInt 360000) ''seconds_to_hms'' = PStr ''100:00:00''
   \<and> transform_value example_rt (PInt 125) ''seconds_to_hms'' = PStr ''00:02:05''"
proof -
  have e: "exact_double 360000"
    by (rule exact_double_small) simp
  have "\<exists>hh mm ss.
         transform_value example_rt (PInt 360000) ''seconds_to_hms''
           = PStr (hh @ '':'' @ mm @ '':'' @ ss)
         \<and> is_digits hh \<and> is_digits mm \<and> is_digits ss
         \<and> 2 \<le> length hh \<and> length mm = 2 \<and> length ss = 2
         \<and> 3600 * int (dec_value hh) + 60 * int (dec_value mm) + int (dec_value ss) = 360000
         \<and> dec_value mm < 60 \<and> dec_value ss < 60 \<and> 3 \<le> length hh"
    using transform_value_hms [of 360000 example_rt] e by simp
  moreover have "transform_value example_rt (PInt 360000) ''seconds_to_hms'' = PStr ''100:00:00''"
    by (simp add: hms_eval)
  moreover have "transform_value example_rt (PInt 125) ''seconds_to_hms'' = PStr ''00:02:05''"
    by (simp add: hms_eval)
  ultimately show ?thesis
    using e by simp
qed

text \<open>
  C4 as it is stated fails on integers that a double does not hold. The integer
  \<open>2^53 + 1 = 9007199254740993\<close> is rounded by \<^verbatim>\<open>float\<close> to \<open>2^53\<close>, and the string that comes
  back is the one of \<open>2^53\<close> seconds: its fields add up to 9007199254740992.
\<close>

theorem transform_value_hms_counterexample:
  "transform_value example_rt (PInt 9007199254740993) ''seconds_to_hms''
     = PStr ''2501999792983:36:32''
   \<and> 3600 * int (dec_value ''2501999792983'') + 60 * int (dec_value ''36'')
       + int (dec_value ''32'') = 9007199254740992"
proof -
  have "transform_value example_rt (PInt 9007199254740993) ''seconds_to_hms''
     = PStr ''2501999792983:36:32''"
    by (simp add: hms_eval)
  moreover have "3600 * int (dec_value ''2501999792983'') + 60 * int (dec_value ''36'')
       + int (dec_value ''32'') = 9007199254740992"
    by (simp add: dec_value_def digit_value_def)
  ultimately show ?thesis by simp
qed

section \<open>Properties of the field extractor\<close>

text \<open>A later mapping does not touch the entries of other keys.\<close>

lemma map_of_fold_update_other:
  "key \<notin> k ` set xs \<Longrightarrow>
     map_of (fold (\<lambda>s out. AList.update (k s) (f s) out) xs acc) key = map_of acc key"
  by (induction xs arbitrary: acc) (simp_all add: update_conv')

lemma map_of_fold_update:
  "distinct (map k xs) \<Longrightarrow> s \<in> set xs \<Longrightarrow>
     map_of (fold (\<lambda>s out. AList.update (k s) (f s) out) xs acc) (k s) = Some (f s)"
proof (induction xs arbitrary: acc)
  case Nil
  then show ?case by simp
next
  case (Cons x xs)
  show ?case
  proof (cases "s = x")
    case True
    from Cons.prems(1) have "k x \<notin> k ` set xs" by simp
    then show ?thesis
      using True by (simp add: map_of_fold_update_other update_conv')
  next
    case False
    with Cons.prems have "distinct (map k xs)" and "s \<in> set xs" by simp_all
    then show ?thesis by (simp add: Cons.IH)
  qed
qed

lemma extract_values_lookup:
  assumes "distinct (map unique_id (mappings cfg))" and "s \<in> set (mappings cfg)"
  shows "map_of (extract_values rt cfg msg) (unique_id s) = Some (extract_one rt msg s)"
  unfolding extract_values_def using assms by (rule map_of_fold_update)

lemma keys_fold_update:
  "fst ` set (fold (\<lambda>s out. AList.update (k s) (f s) out) xs acc) = k ` set xs \<union> fst ` set acc"
  by (induction xs arbitrary: acc) (auto simp: dom_update)

lemma extract_values_keys:
  "fst ` set (extract_values rt cfg msg) = unique_id ` set (mappings cfg)"
  by (simp add: extract_values_def keys_fold_update)

text \<open>
  C2. For every frame and every mapping \<open>s\<close> of the list, the output of \<^verbatim>\<open>extract_values\<close>
  has an entry under \<open>unique_id s\<close>, and it has no other keys. When the unique ids of the
  mappings are distinct (the invariant of the data model), the value of the entry is
  \<^verbatim>\<open>None\<close>, the key being there, when the path of \<open>s\<close> has no match in the frame; when
  there is one match or more it is the first match, in the order in which the engine
  returns the matches, passed through \<^verbatim>\<open>transform_value\<close> in the mode that the key
  \<^verbatim>\<open>transform\<close> of \<open>s\<close> names, and in the mode \<^verbatim>\<open>none\<close> when \<open>s\<close> has no such key: the
  first match itself.
\<close>

theorem extract_values_entry:
  assumes "s \<in> set (mappings cfg)"
  shows "unique_id s \<in> fst ` set (extract_values rt cfg msg)
         \<and> fst ` set (extract_values rt cfg msg) = unique_id ` set (mappings cfg)
         \<and> (distinct (map unique_id (mappings cfg)) \<longrightarrow>
              (jsonpath_find rt (jsonpath s) msg = [] \<longrightarrow>
                 map_of (extract_values rt cfg msg) (unique_id s) = Some PNone)
              \<and> (\<forall>v vs m. jsonpath_find rt (jsonpath s) msg = v # vs \<and> transform s = Some m \<longrightarrow>
                 map_of (extract_values rt cfg msg) (unique_id s)
                   = Some (transform_value rt v m))
              \<and> (\<forall>v vs. jsonpath_find rt (jsonpath s) msg = v # vs \<and> transform s = None \<longrightarrow>
                 map_of (extract_values rt cfg msg) (unique_id s)
                   = Some (transform_value rt v ''none'')
                 \<and> map_of (extract_values rt cfg msg) (unique_id s) = Some v))"
proof (intro conjI impI allI)
  show "unique_id s \<in> fst ` set (extract_values rt cfg msg)"
    using assms by (simp add: extract_values_keys)
  show "fst ` set (extract_values rt cfg msg) = unique_id ` set (mappings cfg)"
    by (rule extract_values_keys)
next
  assume "distinct (map unique_id (mappings cfg))" and "jsonpath_find rt (jsonpath s) msg = []"
  then show "map_of (extract_values rt cfg msg) (unique_id s) = Some PNone"
    using extract_values_lookup [OF _ assms, of rt msg]
    by (simp add: extract_one_def first_match_def transform_value_None)
next
  fix v vs m
  assume "distinct (map unique_id (mappings cfg))"
    and "jsonpath_find rt (jsonpath s) msg = v # vs \<and> transform s = Some m"
  then show "map_of (extract_values rt cfg msg) (unique_id s) = Some (transform_value rt v m)"
    using extract_values_lookup [OF _ assms, of rt msg]
    by (simp add: extract_one_def first_match_def mode_of_def)
next
  fix v vs
  assume d: "distinct (map unique_id (mappings cfg))"
    and f: "jsonpath_find rt (jsonpath s) msg = v # vs \<and> transform s = None"
  then show "map_of (extract_values rt cfg msg) (unique_id s) = Some (transform_value rt v ''none'')"
    using extract_values_lookup [OF _ assms, of rt msg]
    by (simp add: extract_one_def first_match_def mode_of_def)
  from d f show "map_of (extract_values rt cfg msg) (unique_id s) = Some v"
    using extract_values_lookup [OF _ assms, of rt msg]
    by (simp add: extract_one_def first_match_def mode_of_def transform_value_def
        transform_body_def)
qed

lemma example_frame_progress:
  "json_loads example_rt (''{'' @ [dq] @ ''progress'' @ [dq] @ '':0.5}'')
     = Decoded (PDict [(''progress'', PFloat (Finite (1 / 2)))])"
  by (simp add: example_rt_def example_frames_def)

lemma example_find:
  "jsonpath_find example_rt (jsonpath sensor_p) (PDict [(''progress'', PFloat (Finite (1 / 2)))])
     = [PFloat (Finite (1 / 2))]"
  "jsonpath_find example_rt (jsonpath sensor_t) (PDict [(''progress'', PFloat (Finite (1 / 2)))])
     = []"
  by (simp_all add: example_rt_def sensor_p_def sensor_t_def)

lemma example_cfg_distinct: "distinct (map unique_id (mappings example_cfg))"
  by (simp add: example_cfg_def sensor_p_def sensor_t_def)

lemma example_cfg4_distinct: "distinct (map unique_id (mappings example_cfg4))"
  by (simp add: example_cfg4_def sensor_p_def sensor_t_def sensor_l_def sensor_a_def)

lemma example_find4:
  "jsonpath_find example_rt (jsonpath sensor_p) example_msg = []"
  "jsonpath_find example_rt (jsonpath sensor_t) example_msg = [PInt 125]"
  "jsonpath_find example_rt (jsonpath sensor_l) example_msg = [PInt 3]"
  "jsonpath_find example_rt (jsonpath sensor_a) example_msg
     = [PInt 125, PInt 3, PStr ''printing'']"
  by (simp_all add: example_rt_def example_msg_def sensor_p_def sensor_t_def sensor_l_def
      sensor_a_def)

lemma example_hms_125:
  "transform_value example_rt (PInt 125) ''seconds_to_hms'' = PStr ''00:02:05''"
  by (simp add: hms_eval)

theorem extract_values_entry_witness:
  "distinct (map unique_id (mappings example_cfg4))
   \<and> set (mappings example_cfg4) = {sensor_p, sensor_t, sensor_l, sensor_a}
   \<and> transform sensor_t = Some ''seconds_to_hms'' \<and> transform sensor_l = None
   \<and> map_of (extract_values example_rt example_cfg4 example_msg) ''p'' = Some PNone
   \<and> map_of (extract_values example_rt example_cfg4 example_msg) ''t'' = Some (PStr ''00:02:05'')
   \<and> map_of (extract_values example_rt example_cfg4 example_msg) ''l'' = Some (PInt 3)
   \<and> map_of (extract_values example_rt example_cfg4 example_msg) ''a'' = Some (PStr ''00:02:05'')
   \<and> map_of (extract_values example_rt example_cfg
        (PDict [(''progress'', PFloat (Finite (1 / 2)))])) ''p'' = Some (PFloat (Finite 50))
   \<and> map_of (extract_values example_rt example_cfg
        (PDict [(''progress'', PFloat (Finite (1 / 2)))])) ''t'' = Some PNone"
proof -
  have m: "sensor_p \<in> set (mappings example_cfg4)" "sensor_t \<in> set (mappings example_cfg4)"
    "sensor_l \<in> set (mappings example_cfg4)" "sensor_a \<in> set (mappings example_cfg4)"
    by (simp_all add: example_cfg4_def)
  have s: "set (mappings example_cfg4) = {sensor_p, sensor_t, sensor_l, sensor_a}"
    by (simp add: example_cfg4_def)
  have p: "sensor_p \<in> set (mappings example_cfg)" and t: "sensor_t \<in> set (mappings example_cfg)"
    by (simp_all add: example_cfg_def)
  have ids: "unique_id sensor_p = ''p''" "unique_id sensor_t = ''t''"
    "unique_id sensor_l = ''l''" "unique_id sensor_a = ''a''"
    by (simp_all add: sensor_p_def sensor_t_def sensor_l_def sensor_a_def)
  have tr: "transform sensor_p = Some ''percent_0_1_to_0_100''"
    "transform sensor_t = Some ''seconds_to_hms''"
    "transform sensor_l = None" "transform sensor_a = Some ''seconds_to_hms''"
    by (simp_all add: sensor_p_def sensor_t_def sensor_l_def sensor_a_def)
  have h: "transform_value example_rt (PFloat (Finite (1 / 2))) ''percent_0_1_to_0_100''
      = PFloat (Finite 50)"
    by (simp add: transform_value_def transform_body_def example_rt_def round_half_even_def)
  have a: "map_of (extract_values example_rt example_cfg4 example_msg) ''p'' = Some PNone"
    using example_cfg4_distinct extract_values_entry [OF m(1), of example_rt example_msg]
    by (simp add: example_find4 ids)
  have b: "map_of (extract_values example_rt example_cfg4 example_msg) ''t''
      = Some (PStr ''00:02:05'')"
    using example_cfg4_distinct extract_values_entry [OF m(2), of example_rt example_msg]
    by (simp add: example_find4 ids tr example_hms_125)
  have c: "map_of (extract_values example_rt example_cfg4 example_msg) ''l'' = Some (PInt 3)"
    using example_cfg4_distinct extract_values_entry [OF m(3), of example_rt example_msg]
    by (simp add: example_find4 ids tr transform_value_def transform_body_def)
  have d: "map_of (extract_values example_rt example_cfg4 example_msg) ''a''
      = Some (PStr ''00:02:05'')"
    using example_cfg4_distinct extract_values_entry [OF m(4), of example_rt example_msg]
    by (simp add: example_find4 ids tr example_hms_125)
  have e: "map_of (extract_values example_rt example_cfg
        (PDict [(''progress'', PFloat (Finite (1 / 2)))])) ''p'' = Some (PFloat (Finite 50))"
    using example_cfg_distinct extract_values_entry [OF p, of example_rt
        "PDict [(''progress'', PFloat (Finite (1 / 2)))]"]
    by (simp add: example_find ids tr h)
  have f: "map_of (extract_values example_rt example_cfg
        (PDict [(''progress'', PFloat (Finite (1 / 2)))])) ''t'' = Some PNone"
    using example_cfg_distinct extract_values_entry [OF t, of example_rt
        "PDict [(''progress'', PFloat (Finite (1 / 2)))]"]
    by (simp add: example_find ids)
  from example_cfg4_distinct s tr a b c d e f show ?thesis by simp
qed

section \<open>Properties of the publisher\<close>

lemma publish_discovery_loop_set:
  "set (publish_discovery_loop cfg ss) =
     (\<Union>s \<in> set ss.
        {Publish (discovery_topic cfg s) (JsonOf (PDict (to_discovery s cfg))) 1 True,
         Log (LogDiscovery (discovery_topic cfg s))})"
  by (induction ss) auto

lemma filter_publish_discovery_loop:
  "filter is_publish (publish_discovery_loop cfg ss) =
     map (\<lambda>s. Publish (discovery_topic cfg s) (JsonOf (PDict (to_discovery s cfg))) 1 True) ss"
  by (induction ss) simp_all

lemma sleeps_publish_discovery_loop: "sleeps (publish_discovery_loop cfg ss) = []"
  by (induction ss) simp_all

lemma to_discovery_unfold:
  "to_discovery s cfg =
     set_if_truthy ''state_class'' (state_class s)
       (set_if_truthy ''device_class'' (device_class s)
          (set_if_truthy ''unit_of_measurement'' (unit s) (discovery_base s cfg)))"
  by (simp add: to_discovery_def)

lemma map_of_set_if_truthy:
  "map_of (set_if_truthy key v disc) k =
     (case v of
        None \<Rightarrow> map_of disc k
      | Some u \<Rightarrow> if u \<noteq> [] \<and> k = key then Some (PStr u) else map_of disc k)"
  by (simp add: set_if_truthy_def update_conv' split: option.splits)

text \<open>The keys that \<^verbatim>\<open>to_discovery\<close> always sets.\<close>

lemma to_discovery_fixed:
  "map_of (to_discovery s cfg) ''name'' = Some (PStr (name s))"
  "map_of (to_discovery s cfg) ''state_topic''
     = Some (PStr (base_topic cfg @ ''/state/'' @ unique_id s))"
  "map_of (to_discovery s cfg) ''unique_id'' = Some (PStr (unique_id s))"
  "map_of (to_discovery s cfg) ''device''
     = Some (PDict [(''identifiers'', PList [PStr (device_id cfg)]),
                    (''manufacturer'', PStr ''Creality''),
                    (''name'', PStr (device_name cfg)),
                    (''model'', PStr ''K1/K1 Max (WS Bridge)'')])"
  "map_of (to_discovery s cfg) ''icon''
     = Some (PStr (case icon s of
                     None \<Rightarrow> ''mdi:printer-3d''
                   | Some i \<Rightarrow> if i = [] then ''mdi:printer-3d'' else i))"
  by (simp_all add: to_discovery_unfold map_of_set_if_truthy discovery_base_def
      split: option.splits)

text \<open>The three keys that it sets on a test of truthiness.\<close>

lemma to_discovery_optional:
  "map_of (to_discovery s cfg) ''unit_of_measurement''
     = (case unit s of None \<Rightarrow> None | Some u \<Rightarrow> if u = [] then None else Some (PStr u))"
  "map_of (to_discovery s cfg) ''device_class''
     = (case device_class s of None \<Rightarrow> None | Some u \<Rightarrow> if u = [] then None else Some (PStr u))"
  "map_of (to_discovery s cfg) ''state_class''
     = (case state_class s of None \<Rightarrow> None | Some u \<Rightarrow> if u = [] then None else Some (PStr u))"
  by (simp_all add: to_discovery_unfold map_of_set_if_truthy discovery_base_def
      split: option.splits)

lemma set_if_truthy_keys: "fst ` set (set_if_truthy key v disc) \<subseteq> insert key (fst ` set disc)"
  by (auto simp: set_if_truthy_def dom_update split: option.splits if_splits)

lemma to_discovery_keys:
  "fst ` set (to_discovery s cfg)
     \<subseteq> {''state_class'', ''device_class'', ''unit_of_measurement'',
        ''name'', ''state_topic'', ''unique_id'', ''device'', ''icon''}"
proof -
  let ?d0 = "discovery_base s cfg"
  let ?d1 = "set_if_truthy ''unit_of_measurement'' (unit s) ?d0"
  let ?d2 = "set_if_truthy ''device_class'' (device_class s) ?d1"
  have k0: "fst ` set ?d0 = {''name'', ''state_topic'', ''unique_id'', ''device'', ''icon''}"
    by (simp add: discovery_base_def)
  have "fst ` set (to_discovery s cfg) \<subseteq> insert ''state_class'' (fst ` set ?d2)"
    unfolding to_discovery_unfold by (rule set_if_truthy_keys)
  also have "\<dots> \<subseteq> insert ''state_class'' (insert ''device_class'' (fst ` set ?d1))"
    by (intro insert_mono set_if_truthy_keys)
  also have "\<dots> \<subseteq> insert ''state_class'' (insert ''device_class''
      (insert ''unit_of_measurement'' (fst ` set ?d0)))"
    by (intro insert_mono set_if_truthy_keys)
  finally show ?thesis
    by (simp only: k0)
qed

text \<open>
  C5, as amended. The discovery record of a mapping holds \<^verbatim>\<open>name\<close>, \<^verbatim>\<open>state_topic\<close>,
  \<^verbatim>\<open>unique_id\<close>, the device descriptor (\<^verbatim>\<open>identifiers = [device_id]\<close>, the manufacturer
  \<^verbatim>\<open>Creality\<close>, the device name, the model \<^verbatim>\<open>K1/K1 Max (WS Bridge)\<close>) and an icon, which is
  \<^verbatim>\<open>mdi:printer-3d\<close> when the mapping has no icon or an empty one. It holds the unit (under
  \<^verbatim>\<open>unit_of_measurement\<close>), the device class and the state class, unchanged, exactly when
  the mapping has them and they are not empty, and has no other key. \<^verbatim>\<open>publish_discovery\<close>
  publishes the record of every mapping, and nothing else, retained and with QoS 1.
\<close>

theorem discovery_record:
  "map_of (to_discovery s cfg) ''name'' = Some (PStr (name s))
   \<and> map_of (to_discovery s cfg) ''state_topic''
       = Some (PStr (base_topic cfg @ ''/state/'' @ unique_id s))
   \<and> map_of (to_discovery s cfg) ''unique_id'' = Some (PStr (unique_id s))
   \<and> map_of (to_discovery s cfg) ''device''
       = Some (PDict [(''identifiers'', PList [PStr (device_id cfg)]),
                      (''manufacturer'', PStr ''Creality''),
                      (''name'', PStr (device_name cfg)),
                      (''model'', PStr ''K1/K1 Max (WS Bridge)'')])
   \<and> map_of (to_discovery s cfg) ''icon''
       = Some (PStr (case icon s of
                       None \<Rightarrow> ''mdi:printer-3d''
                     | Some i \<Rightarrow> if i = [] then ''mdi:printer-3d'' else i))
   \<and> map_of (to_discovery s cfg) ''unit_of_measurement''
       = (case unit s of None \<Rightarrow> None | Some u \<Rightarrow> if u = [] then None else Some (PStr u))
   \<and> map_of (to_discovery s cfg) ''device_class''
       = (case device_class s of
            None \<Rightarrow> None | Some u \<Rightarrow> if u = [] then None else Some (PStr u))
   \<and> map_of (to_discovery s cfg) ''state_class''
       = (case state_class s of
            None \<Rightarrow> None | Some u \<Rightarrow> if u = [] then None else Some (PStr u))
   \<and> fst ` set (to_discovery s cfg)
       \<subseteq> {''state_class'', ''device_class'', ''unit_of_measurement'',
          ''name'', ''state_topic'', ''unique_id'', ''device'', ''icon''}
   \<and> filter is_publish (publish_discovery cfg)
       = map (\<lambda>s. Publish (discovery_topic cfg s) (JsonOf (PDict (to_discovery s cfg))) 1 True)
           (mappings cfg)"
  by (simp only: to_discovery_fixed to_discovery_optional to_discovery_keys
      publish_discovery_def filter_publish_discovery_loop simp_thms)

theorem discovery_record_witness:
  "to_discovery sensor_p example_cfg
     = [(''name'', PStr ''Progress''),
        (''state_topic'', PStr ''k1max/state/p''),
        (''unique_id'', PStr ''p''),
        (''device'', PDict [(''identifiers'', PList [PStr ''k1max_1'']),
                           (''manufacturer'', PStr ''Creality''),
                           (''name'', PStr ''K1 Max''),
                           (''model'', PStr ''K1/K1 Max (WS Bridge)'')]),
        (''icon'', PStr ''mdi:printer-3d''),
        (''unit_of_measurement'', PStr ''%''),
        (''state_class'', PStr ''measurement'')]
   \<and> map_of (to_discovery sensor_p example_cfg) ''unit_of_measurement'' = Some (PStr ''%'')
   \<and> map_of (to_discovery sensor_p example_cfg) ''device_class'' = None
   \<and> map_of (to_discovery sensor_t example_cfg) ''icon'' = Some (PStr ''mdi:timer'')
   \<and> filter is_publish (publish_discovery example_cfg)
       = [Publish ''homeassistant/sensor/k1max_1/p/config''
            (JsonOf (PDict (to_discovery sensor_p example_cfg))) 1 True,
          Publish ''homeassistant/sensor/k1max_1/t/config''
            (JsonOf (PDict (to_discovery sensor_t example_cfg))) 1 True]"
proof -
  have "to_discovery sensor_p example_cfg
     = [(''name'', PStr ''Progress''),
        (''state_topic'', PStr ''k1max/state/p''),
        (''unique_id'', PStr ''p''),
        (''device'', PDict [(''identifiers'', PList [PStr ''k1max_1'']),
                           (''manufacturer'', PStr ''Creality''),
                           (''name'', PStr ''K1 Max''),
                           (''model'', PStr ''K1/K1 Max (WS Bridge)'')]),
        (''icon'', PStr ''mdi:printer-3d''),
        (''unit_of_measurement'', PStr ''%''),
        (''state_class'', PStr ''measurement'')]"
    by (simp add: to_discovery_def discovery_base_def set_if_truthy_def sensor_p_def
        example_cfg_def)
  moreover have "discovery_topic example_cfg sensor_p = ''homeassistant/sensor/k1max_1/p/config''"
    and "discovery_topic example_cfg sensor_t = ''homeassistant/sensor/k1max_1/t/config''"
    by (simp_all add: discovery_topic_def sensor_p_def sensor_t_def example_cfg_def)
  moreover have "mappings example_cfg = [sensor_p, sensor_t]"
    by (simp add: example_cfg_def)
  moreover have "unit sensor_p = Some ''%''" "device_class sensor_p = None"
    "icon sensor_t = Some ''mdi:timer''"
    by (simp_all add: sensor_p_def sensor_t_def)
  ultimately show ?thesis
    using discovery_record [of sensor_p example_cfg] discovery_record [of sensor_t example_cfg]
    by simp
qed

text \<open>
  C5 as it is stated fails on a mapping whose unit is present and empty: the test on line 32
  is one of truthiness, and the record has no \<^verbatim>\<open>unit_of_measurement\<close>.
\<close>

theorem discovery_record_counterexample:
  "unit sensor_e = Some [] \<and> map_of (to_discovery sensor_e example_cfg) ''unit_of_measurement'' = None"
  by (simp add: to_discovery_def discovery_base_def set_if_truthy_def sensor_e_def)

text \<open>
  C6. \<^verbatim>\<open>publish_state(uid, value)\<close> is one publication on the topic
  \<^verbatim>\<open>{base_topic}/state/{uid}\<close>, retained, with QoS 0. Its payload is empty when the value is
  \<^verbatim>\<open>None\<close>, and otherwise it is \<^verbatim>\<open>str(value)\<close>, which carries the value: the string itself for
  a string, \<^verbatim>\<open>True\<close> or \<^verbatim>\<open>False\<close> for a bool, and for an integer \<open>n\<close> a string of one decimal
  digit or more whose value is \<open>\<bar>n\<bar>\<close>, with no leading zero (the integer 0 is the one digit
  \<^verbatim>\<open>0\<close>) and a minus sign in front when \<open>n < 0\<close>. For a float, a list or a dict it is the
  interpreter's rendering of that value.
\<close>

theorem publish_state_action:
  "\<exists>p. publish_state cfg uid v = Publish (base_topic cfg @ ''/state/'' @ uid) p 0 True
       \<and> (v = PNone \<longrightarrow> p = Text [])
       \<and> (\<forall>s. v = PStr s \<longrightarrow> p = Text s)
       \<and> (\<forall>b. v = PBool b \<longrightarrow> p = Text (if b then ''True'' else ''False''))
       \<and> (\<forall>n. v = PInt n \<longrightarrow>
            (\<exists>ds. p = Text (if n < 0 then CHR ''-'' # ds else ds)
                  \<and> ds \<noteq> [] \<and> is_digits ds \<and> int (dec_value ds) = \<bar>n\<bar>
                  \<and> (hd ds = CHR ''0'' \<longrightarrow> n = 0 \<and> ds = ''0'')))
       \<and> (\<forall>f. v = PFloat f \<longrightarrow> p = StrOf v)
       \<and> (\<forall>xs. v = PList xs \<longrightarrow> p = StrOf v)
       \<and> (\<forall>kvs. v = PDict kvs \<longrightarrow> p = StrOf v)"
  using str_int_digits by (cases v) (simp_all add: publish_state_def)

theorem publish_state_action_witness:
  "publish_state example_cfg ''t'' (PStr ''00:02:05'')
       = Publish ''k1max/state/t'' (Text ''00:02:05'') 0 True
   \<and> publish_state example_cfg ''t'' PNone = Publish ''k1max/state/t'' (Text []) 0 True
   \<and> publish_state example_cfg ''p'' (PFloat (Finite 50))
       = Publish ''k1max/state/p'' (StrOf (PFloat (Finite 50))) 0 True
   \<and> (\<exists>ds. publish_state example_cfg ''l'' (PInt 125) = Publish ''k1max/state/l'' (Text ds) 0 True
         \<and> ds \<noteq> [] \<and> is_digits ds \<and> int (dec_value ds) = 125 \<and> hd ds \<noteq> CHR ''0'')
   \<and> publish_state example_cfg ''l'' (PInt 125) = Publish ''k1max/state/l'' (Text ''125'') 0 True
   \<and> publish_state example_cfg ''l'' (PInt (- 5)) = Publish ''k1max/state/l'' (Text ''-5'') 0 True
   \<and> publish_state example_cfg ''l'' (PInt 0) = Publish ''k1max/state/l'' (Text ''0'') 0 True"
proof -
  have a: "publish_state example_cfg ''t'' (PStr ''00:02:05'')
       = Publish ''k1max/state/t'' (Text ''00:02:05'') 0 True
   \<and> publish_state example_cfg ''t'' PNone = Publish ''k1max/state/t'' (Text []) 0 True
   \<and> publish_state example_cfg ''p'' (PFloat (Finite 50))
       = Publish ''k1max/state/p'' (StrOf (PFloat (Finite 50))) 0 True"
    using publish_state_action [of example_cfg "''t''" "PStr ''00:02:05''"]
      publish_state_action [of example_cfg "''t''" PNone]
      publish_state_action [of example_cfg "''p''" "PFloat (Finite 50)"]
    by (auto simp: example_cfg_def)
  have b: "\<exists>ds. publish_state example_cfg ''l'' (PInt 125) = Publish ''k1max/state/l'' (Text ds) 0 True
         \<and> ds \<noteq> [] \<and> is_digits ds \<and> int (dec_value ds) = 125 \<and> hd ds \<noteq> CHR ''0''"
    using publish_state_action [of example_cfg "''l''" "PInt 125"]
    by (auto simp: example_cfg_def)
  have c: "publish_state example_cfg ''l'' (PInt 125) = Publish ''k1max/state/l'' (Text ''125'') 0 True"
    "publish_state example_cfg ''l'' (PInt (- 5)) = Publish ''k1max/state/l'' (Text ''-5'') 0 True"
    "publish_state example_cfg ''l'' (PInt 0) = Publish ''k1max/state/l'' (Text ''0'') 0 True"
    by (simp_all add: publish_state_def example_cfg_def str_int_examples)
  from a b c show ?thesis by simp
qed

section \<open>Properties of the connection supervisor\<close>

declare ws_loop.simps [simp del]

lemma ws_loop_step: "step rt cfg c = Some c' \<Longrightarrow> ws_loop rt cfg c = ws_loop rt cfg c'"
  by (subst ws_loop.simps) simp

lemma ws_loop_stuck: "step rt cfg c = None \<Longrightarrow> ws_loop rt cfg c = c"
  by (subst ws_loop.simps) simp

lemma sleeps_append: "sleeps (xs @ ys) = sleeps xs @ sleeps ys"
  by (induction xs rule: sleeps.induct) simp_all

lemma sleeps_publish_state: "sleeps (map (\<lambda>(uid, val). publish_state cfg uid val) vals) = []"
  by (induction vals) (auto simp: publish_state_def)

text \<open>
  The handling of one frame: the backoff stays and nothing sleeps; the label stays unless
  \<^verbatim>\<open>json.loads\<close> raises an exception that is not caught.
\<close>

lemma on_frame_frame:
  "backoff (on_frame rt cfg msg st) = backoff st"
  "sleeps (out (on_frame rt cfg msg st)) = sleeps (out st)"
  "raw_left (on_frame rt cfg msg st) \<le> raw_left st"
  by (simp_all add: on_frame_def log_raw_def Let_def sleeps_append sleeps_publish_state
      split: decode_result.splits)

lemma pc_on_frame:
  "json_loads rt msg \<noteq> OtherError \<Longrightarrow> pc (on_frame rt cfg msg st) = pc st"
  by (simp add: on_frame_def log_raw_def Let_def split: decode_result.splits)

text \<open>The three statements of the handler, from line 120 back to line 100.\<close>

lemma ws_loop_handler:
  assumes "pc st = L120"
  shows "ws_loop rt cfg (st, evs) =
     ws_loop rt cfg
       (st\<lparr>out := out st @ [Log (LogWsError (exc st) (backoff st)), Sleep (backoff st)],
           backoff := min (backoff st * 2) 60, pc := L100\<rparr>, evs)"
proof -
  let ?s1 = "st\<lparr>out := out st @ [Log (LogWsError (exc st) (backoff st))], pc := L121\<rparr>"
  let ?s2 = "?s1\<lparr>out := out ?s1 @ [Sleep (backoff ?s1)], pc := L122\<rparr>"
  let ?s3 = "?s2\<lparr>backoff := min (backoff ?s2 * 2) 60, pc := L100\<rparr>"
  have "ws_loop rt cfg (st, evs) = ws_loop rt cfg (?s1, evs)"
    using assms by (intro ws_loop_step) simp
  also have "\<dots> = ws_loop rt cfg (?s2, evs)"
    by (intro ws_loop_step) simp
  also have "\<dots> = ws_loop rt cfg (?s3, evs)"
    by (intro ws_loop_step) simp
  finally show ?thesis by simp
qed

text \<open>A failed attempt to connect, from line 100 back to line 100.\<close>

lemma ws_loop_connect_error:
  assumes "pc st = L100"
  shows "\<exists>st'. ws_loop rt cfg (st, ConnectError e # evs) = ws_loop rt cfg (st', evs)
           \<and> pc st' = L100 \<and> backoff st' = min (backoff st * 2) 60
           \<and> sleeps (out st') = sleeps (out st) @ [backoff st]"
proof -
  let ?s1 = "st\<lparr>out := out st @ [Log (LogConnecting (ws_url cfg))], pc := L101\<rparr>"
  let ?s2 = "?s1\<lparr>pc := L120, exc := e\<rparr>"
  have "ws_loop rt cfg (st, ConnectError e # evs) = ws_loop rt cfg (?s1, ConnectError e # evs)"
    using assms by (intro ws_loop_step) simp
  also have "\<dots> = ws_loop rt cfg (?s2, evs)"
    by (intro ws_loop_step) simp
  also have "\<dots> = ws_loop rt cfg
       (?s2\<lparr>out := out ?s2 @ [Log (LogWsError (exc ?s2) (backoff ?s2)), Sleep (backoff ?s2)],
           backoff := min (backoff ?s2 * 2) 60, pc := L100\<rparr>, evs)"
    by (rule ws_loop_handler) simp
  finally show ?thesis
    by (intro exI conjI) (assumption, simp_all add: sleeps_append)
qed

lemma ws_loop_connect_errors:
  assumes "pc st = L100"
  shows "\<exists>st'. ws_loop rt cfg (st, map ConnectError es @ evs) = ws_loop rt cfg (st', evs)
           \<and> pc st' = L100
           \<and> sleeps (out st') = sleeps (out st) @ backoff_run (backoff st) (length es)"
  using assms
proof (induction es arbitrary: st)
  case Nil
  then show ?case by auto
next
  case (Cons e es)
  from ws_loop_connect_error [OF Cons.prems, of rt cfg e "map ConnectError es @ evs"]
  obtain s1 where s1: "ws_loop rt cfg (st, ConnectError e # map ConnectError es @ evs)
        = ws_loop rt cfg (s1, map ConnectError es @ evs)"
      "pc s1 = L100" "backoff s1 = min (backoff st * 2) 60"
      "sleeps (out s1) = sleeps (out st) @ [backoff st]"
    by blast
  from Cons.IH [OF s1(2)]
  obtain s2 where s2: "ws_loop rt cfg (s1, map ConnectError es @ evs) = ws_loop rt cfg (s2, evs)"
      "pc s2 = L100" "sleeps (out s2) = sleeps (out s1) @ backoff_run (backoff s1) (length es)"
    by blast
  show ?case
    by (rule exI [of _ s2]) (simp add: s1 s2)
qed

text \<open>A successful attempt, from line 100 to line 105.\<close>

lemma ws_loop_connect_ok:
  assumes "pc st = L100"
  shows "ws_loop rt cfg (st, ConnectOk # evs) =
     ws_loop rt cfg
       (st\<lparr>out := out st @ [Log (LogConnecting (ws_url cfg)), Log LogConnected]
              @ publish_discovery cfg,
           backoff := 2, pc := L105\<rparr>, evs)"
proof -
  let ?s1 = "st\<lparr>out := out st @ [Log (LogConnecting (ws_url cfg))], pc := L101\<rparr>"
  let ?s2 = "?s1\<lparr>pc := L102\<rparr>"
  let ?s3 = "?s2\<lparr>out := out ?s2 @ [Log LogConnected], pc := L103\<rparr>"
  let ?s4 = "?s3\<lparr>out := out ?s3 @ publish_discovery cfg, pc := L104\<rparr>"
  let ?s5 = "?s4\<lparr>backoff := 2, pc := L105\<rparr>"
  have "ws_loop rt cfg (st, ConnectOk # evs) = ws_loop rt cfg (?s1, ConnectOk # evs)"
    using assms by (intro ws_loop_step) simp
  also have "\<dots> = ws_loop rt cfg (?s2, evs)"
    by (intro ws_loop_step) simp
  also have "\<dots> = ws_loop rt cfg (?s3, evs)"
    by (intro ws_loop_step) simp
  also have "\<dots> = ws_loop rt cfg (?s4, evs)"
    by (intro ws_loop_step) simp
  also have "\<dots> = ws_loop rt cfg (?s5, evs)"
    by (intro ws_loop_step) simp
  finally show ?thesis by simp
qed

text \<open>Frames, at line 105.\<close>

lemma ws_loop_frames:
  assumes "pc st = L105" and "\<forall>m \<in> set ms. json_loads rt m \<noteq> OtherError"
  shows "\<exists>st'. ws_loop rt cfg (st, map Frame ms @ evs) = ws_loop rt cfg (st', evs)
           \<and> pc st' = L105 \<and> backoff st' = backoff st
           \<and> sleeps (out st') = sleeps (out st)"
  using assms
proof (induction ms arbitrary: st)
  case Nil
  then show ?case by auto
next
  case (Cons m ms)
  let ?s1 = "on_frame rt cfg m st"
  have a: "ws_loop rt cfg (st, Frame m # map Frame ms @ evs)
      = ws_loop rt cfg (?s1, map Frame ms @ evs)"
    using Cons.prems(1) by (intro ws_loop_step) simp
  have "pc ?s1 = L105"
    using Cons.prems by (simp add: pc_on_frame)
  moreover have "\<forall>m \<in> set ms. json_loads rt m \<noteq> OtherError"
    using Cons.prems(2) by simp
  ultimately have "\<exists>st'. ws_loop rt cfg (?s1, map Frame ms @ evs) = ws_loop rt cfg (st', evs)
           \<and> pc st' = L105 \<and> backoff st' = backoff ?s1
           \<and> sleeps (out st') = sleeps (out ?s1)"
    by (rule Cons.IH)
  then
  obtain s2 where s2: "ws_loop rt cfg (?s1, map Frame ms @ evs) = ws_loop rt cfg (s2, evs)"
      "pc s2 = L105" "backoff s2 = backoff ?s1" "sleeps (out s2) = sleeps (out ?s1)"
    by blast
  show ?case
    by (rule exI [of _ s2]) (simp add: a s2 on_frame_frame)
qed

text \<open>The end of a session, at line 105: with an exception, or without one.\<close>

lemma ws_loop_close_error:
  assumes "pc st = L105"
  shows "\<exists>st'. ws_loop rt cfg (st, CloseError e # evs) = ws_loop rt cfg (st', evs)
           \<and> pc st' = L100 \<and> backoff st' = min (backoff st * 2) 60
           \<and> sleeps (out st') = sleeps (out st) @ [backoff st]"
proof -
  let ?s1 = "st\<lparr>pc := L120, exc := e\<rparr>"
  have "ws_loop rt cfg (st, CloseError e # evs) = ws_loop rt cfg (?s1, evs)"
    using assms by (intro ws_loop_step) simp
  also have "\<dots> = ws_loop rt cfg
       (?s1\<lparr>out := out ?s1 @ [Log (LogWsError (exc ?s1) (backoff ?s1)), Sleep (backoff ?s1)],
           backoff := min (backoff ?s1 * 2) 60, pc := L100\<rparr>, evs)"
    by (rule ws_loop_handler) simp
  finally show ?thesis
    by (intro exI conjI) (assumption, simp_all add: sleeps_append)
qed

lemma ws_loop_close_ok:
  assumes "pc st = L105"
  shows "ws_loop rt cfg (st, CloseOk # evs) = ws_loop rt cfg (st\<lparr>pc := L100\<rparr>, evs)"
  using assms by (intro ws_loop_step) simp

text \<open>With no event left the loop waits at line 101.\<close>

lemma ws_loop_waiting:
  assumes "pc st = L100"
  shows "ws_loop rt cfg (st, []) =
     (st\<lparr>out := out st @ [Log (LogConnecting (ws_url cfg))], pc := L101\<rparr>, [])"
proof -
  let ?s1 = "st\<lparr>out := out st @ [Log (LogConnecting (ws_url cfg))], pc := L101\<rparr>"
  have "ws_loop rt cfg (st, []) = ws_loop rt cfg (?s1, [])"
    using assms by (intro ws_loop_step) simp
  also have "\<dots> = (?s1, [])"
    by (intro ws_loop_stuck) simp
  finally show ?thesis .
qed

subsection \<open>The backoff sequence\<close>

lemma backoff_run_closed:
  "backoff_run (min (2 * 2 ^ k) 60) n = map (\<lambda>i. min (2 * 2 ^ (k + i)) 60) [0..<n]"
proof (induction n arbitrary: k)
  case 0
  then show ?case by simp
next
  case (Suc n)
  have "min (min (2 * 2 ^ k) 60 * 2) 60 = min (2 * 2 ^ Suc k) (60::int)"
    by (simp add: min_def)
  then have "backoff_run (min (2 * 2 ^ k) 60) (Suc n)
      = min (2 * 2 ^ k) 60 # map (\<lambda>i. min (2 * 2 ^ (Suc k + i)) 60) [0..<n]"
    using Suc.IH [of "Suc k"] by simp
  then show ?case
    by (simp add: map_upt_Suc del: upt_Suc)
qed

lemma backoff_run_seq: "backoff_run 2 n = backoff_seq n"
  using backoff_run_closed [of 0 n] by (simp add: backoff_seq_def)

lemma backoff_seq_7: "backoff_seq 7 = [2, 4, 8, 16, 32, 60, 60]"
  by (simp add: backoff_seq_def eval_nat_numeral)

lemma backoff_seq_cap:
  assumes "i < n" and "5 \<le> i"
  shows "backoff_seq n ! i = 60"
proof -
  have "(2::int) ^ 5 \<le> 2 ^ i"
    using assms(2) by (intro power_increasing) simp_all
  then have "(60::int) \<le> 2 * 2 ^ i"
    by simp
  then show ?thesis
    using assms(1) by (simp add: backoff_seq_def)
qed

text \<open>A whole session: the connection opens and frames arrive.\<close>

lemma ws_loop_session:
  assumes "pc st = L100" and "\<forall>m \<in> set ms. json_loads rt m \<noteq> OtherError"
  shows "\<exists>st'. ws_loop rt cfg (st, ConnectOk # map Frame ms @ evs) = ws_loop rt cfg (st', evs)
           \<and> pc st' = L105 \<and> backoff st' = 2 \<and> sleeps (out st') = sleeps (out st)"
proof -
  let ?s1 = "st\<lparr>out := out st @ [Log (LogConnecting (ws_url cfg)), Log LogConnected]
              @ publish_discovery cfg,
           backoff := 2, pc := L105\<rparr>"
  have a: "ws_loop rt cfg (st, ConnectOk # map Frame ms @ evs)
      = ws_loop rt cfg (?s1, map Frame ms @ evs)"
    using assms(1) by (rule ws_loop_connect_ok)
  have "pc ?s1 = L105" by simp
  from ws_loop_frames [OF this assms(2), of cfg evs]
  obtain s2 where s2: "ws_loop rt cfg (?s1, map Frame ms @ evs) = ws_loop rt cfg (s2, evs)"
      "pc s2 = L105" "backoff s2 = backoff ?s1" "sleeps (out s2) = sleeps (out ?s1)"
    by blast
  show ?thesis
  proof (intro exI conjI)
    show "ws_loop rt cfg (st, ConnectOk # map Frame ms @ evs) = ws_loop rt cfg (s2, evs)"
      by (simp only: a s2(1))
    show "pc s2 = L105"
      by (rule s2(2))
    show "backoff s2 = 2"
      using s2(3) by simp
    show "sleeps (out s2) = sleeps (out st)"
      using s2(4)
      by (simp add: sleeps_append publish_discovery_def sleeps_publish_discovery_loop)
  qed
qed

lemma sleeps_failures:
  assumes "pc st = L100"
  shows "sleeps (out (fst (ws_loop rt cfg (st, map ConnectError es))))
     = sleeps (out st) @ backoff_run (backoff st) (length es)"
proof -
  from ws_loop_connect_errors [OF assms, of rt cfg es "[]"]
  obtain s1 where s1: "ws_loop rt cfg (st, map ConnectError es) = ws_loop rt cfg (s1, [])"
      "pc s1 = L100" "sleeps (out s1) = sleeps (out st) @ backoff_run (backoff st) (length es)"
    by auto
  show ?thesis
    by (simp add: s1 ws_loop_waiting sleeps_append)
qed

text \<open>
  C1. The sleeps of a run of failures that starts with the process are the first terms of
  2, 4, 8, 16, 32, 60, 60, ... (the term of index \<open>i\<close> is \<open>min (2 * 2^i) 60\<close>, which is 60
  from index 5 on). Whatever happened before, and whatever the backoff was, once a
  connection has opened the next run of failures starts again from 2: this holds when the
  session ends with an exception, whose handler sleeps first, and when it ends without
  one and the following attempts fail. The frames of the session are any frames that do
  not end the loop.
\<close>

theorem backoff_schedule:
  "sleeps (out (fst (ws_loop rt cfg (bridge_init cfg, map ConnectError es))))
     = backoff_seq (length es)
   \<and> (pc st = L100 \<and> (\<forall>m \<in> set ms. json_loads rt m \<noteq> OtherError) \<longrightarrow>
        sleeps (out (fst (ws_loop rt cfg
          (st, ConnectOk # map Frame ms @ CloseError e # map ConnectError es))))
        = sleeps (out st) @ backoff_seq (Suc (length es)))
   \<and> (pc st = L100 \<and> (\<forall>m \<in> set ms. json_loads rt m \<noteq> OtherError) \<longrightarrow>
        sleeps (out (fst (ws_loop rt cfg
          (st, ConnectOk # map Frame ms @ CloseOk # map ConnectError es))))
        = sleeps (out st) @ backoff_seq (length es))
   \<and> backoff_seq 7 = [2, 4, 8, 16, 32, 60, 60]
   \<and> (\<forall>i. i < n \<and> 5 \<le> i \<longrightarrow> backoff_seq n ! i = 60)"
proof (intro conjI impI allI)
  show "sleeps (out (fst (ws_loop rt cfg (bridge_init cfg, map ConnectError es))))
     = backoff_seq (length es)"
    using sleeps_failures [of "bridge_init cfg" rt cfg es]
    by (simp add: bridge_init_def backoff_run_seq)
next
  assume "pc st = L100 \<and> (\<forall>m \<in> set ms. json_loads rt m \<noteq> OtherError)"
  then have st: "pc st = L100" and ms: "\<forall>m \<in> set ms. json_loads rt m \<noteq> OtherError"
    by simp_all
  from ws_loop_session [OF st ms, where evs = "CloseError e # map ConnectError es" and cfg = cfg]
  obtain s1 where s1: "ws_loop rt cfg (st, ConnectOk # map Frame ms @ CloseError e # map ConnectError es)
        = ws_loop rt cfg (s1, CloseError e # map ConnectError es)"
      "pc s1 = L105" "backoff s1 = 2" "sleeps (out s1) = sleeps (out st)"
    by blast
  from ws_loop_close_error [OF s1(2), of rt cfg e "map ConnectError es"]
  obtain s2 where s2: "ws_loop rt cfg (s1, CloseError e # map ConnectError es)
        = ws_loop rt cfg (s2, map ConnectError es)"
      "pc s2 = L100" "backoff s2 = min (backoff s1 * 2) 60"
      "sleeps (out s2) = sleeps (out s1) @ [backoff s1]"
    by blast
  have "backoff_run 2 (Suc (length es)) = 2 # backoff_run (backoff s2) (length es)"
    by (simp add: s2 s1)
  then show "sleeps (out (fst (ws_loop rt cfg
          (st, ConnectOk # map Frame ms @ CloseError e # map ConnectError es))))
        = sleeps (out st) @ backoff_seq (Suc (length es))"
    using sleeps_failures [OF s2(2), of rt cfg es]
    by (simp add: s1 s2 backoff_run_seq [symmetric] del: backoff_run.simps)
next
  assume "pc st = L100 \<and> (\<forall>m \<in> set ms. json_loads rt m \<noteq> OtherError)"
  then have st: "pc st = L100" and ms: "\<forall>m \<in> set ms. json_loads rt m \<noteq> OtherError"
    by simp_all
  from ws_loop_session [OF st ms, where evs = "CloseOk # map ConnectError es" and cfg = cfg]
  obtain s1 where s1: "ws_loop rt cfg (st, ConnectOk # map Frame ms @ CloseOk # map ConnectError es)
        = ws_loop rt cfg (s1, CloseOk # map ConnectError es)"
      "pc s1 = L105" "backoff s1 = 2" "sleeps (out s1) = sleeps (out st)"
    by blast
  have "ws_loop rt cfg (s1, CloseOk # map ConnectError es)
      = ws_loop rt cfg (s1\<lparr>pc := L100\<rparr>, map ConnectError es)"
    using s1(2) by (rule ws_loop_close_ok)
  then show "sleeps (out (fst (ws_loop rt cfg
          (st, ConnectOk # map Frame ms @ CloseOk # map ConnectError es))))
        = sleeps (out st) @ backoff_seq (length es)"
    using sleeps_failures [of "s1\<lparr>pc := L100\<rparr>" rt cfg es]
    by (simp add: s1 backoff_run_seq)
next
  show "backoff_seq 7 = [2, 4, 8, 16, 32, 60, 60]"
    by (rule backoff_seq_7)
next
  fix i
  assume "i < n \<and> 5 \<le> i"
  then show "backoff_seq n ! i = 60"
    by (simp add: backoff_seq_cap)
qed

theorem backoff_schedule_witness:
  "sleeps (out (fst (ws_loop example_rt example_cfg
      (bridge_init example_cfg,
       map ConnectError [''refused'', ''refused'', ''refused'', ''refused'', ''refused'',
         ''refused'', ''refused'']))))
     = [2, 4, 8, 16, 32, 60, 60]
   \<and> pc \<lparr>pc = L100, backoff = 60, raw_left = 0, exc = ''refused'', out = [Sleep 32]\<rparr> = L100
   \<and> json_loads example_rt ''{}'' \<noteq> OtherError
   \<and> json_loads example_rt ''not json'' \<noteq> OtherError
   \<and> sleeps (out (fst (ws_loop example_rt example_cfg
        (\<lparr>pc = L100, backoff = 60, raw_left = 0, exc = ''refused'', out = [Sleep 32]\<rparr>,
         ConnectOk # map Frame [''{}'', ''not json''] @ CloseError ''closed''
           # map ConnectError [''refused'', ''refused'']))))
     = [32, 2, 4, 8]
   \<and> sleeps (out (fst (ws_loop example_rt example_cfg
        (\<lparr>pc = L100, backoff = 60, raw_left = 0, exc = ''refused'', out = [Sleep 32]\<rparr>,
         ConnectOk # map Frame [''{}'', ''not json''] @ CloseOk
           # map ConnectError [''refused'', ''refused'']))))
     = [32, 2, 4]"
proof -
  have d: "json_loads example_rt ''{}'' \<noteq> OtherError"
    "json_loads example_rt ''not json'' \<noteq> OtherError"
    by (simp_all add: example_rt_def example_frames_def dq_def binary_frame_def)
  have s: "backoff_seq (Suc (Suc 0)) = [2, 4]" "backoff_seq (Suc (Suc (Suc 0))) = [2, 4, 8]"
    "backoff_seq (Suc (Suc (Suc (Suc (Suc (Suc (Suc 0))))))) = [2, 4, 8, 16, 32, 60, 60]"
    by (simp_all add: backoff_seq_def)
  show ?thesis
    using backoff_schedule [where rt = example_rt and cfg = example_cfg
        and es = "[''refused'', ''refused'', ''refused'', ''refused'', ''refused'', ''refused'',
          ''refused'']"
        and st = "\<lparr>pc = L100, backoff = 60, raw_left = 0, exc = ''refused'', out = [Sleep 32]\<rparr>"
        and ms = "[''{}'', ''not json'']" and e = "''closed''" and n = 7]
      backoff_schedule [where rt = example_rt and cfg = example_cfg
        and es = "[''refused'', ''refused'']"
        and st = "\<lparr>pc = L100, backoff = 60, raw_left = 0, exc = ''refused'', out = [Sleep 32]\<rparr>"
        and ms = "[''{}'', ''not json'']" and e = "''closed''" and n = 7]
    by (simp add: s d)
qed

subsection \<open>The transition to \<open>Connected\<close>\<close>

text \<open>
  C7, as amended. When the session opens (the step at line 101 that takes the loop from
  \<open>Connecting\<close> to \<open>Connected\<close>), the next three statements are the log line, then
  \<^verbatim>\<open>publish_discovery\<close>, which publishes one record for every mapping, in the order of the
  mappings, while \<^verbatim>\<open>backoff\<close> still has the value it had, and then \<^verbatim>\<open>backoff = 2\<close>. None of
  them reads an event: all of this happens before a frame is consumed.
\<close>

theorem connected_transition:
  assumes "pc st = L101"
  shows "conn_state_of (pc st) = Connecting
   \<and> steps 1 rt cfg (st, ConnectOk # evs) = (st\<lparr>pc := L102\<rparr>, evs)
   \<and> conn_state_of L102 = Connected
   \<and> steps 2 rt cfg (st, ConnectOk # evs)
       = (st\<lparr>out := out st @ [Log LogConnected], pc := L103\<rparr>, evs)
   \<and> steps 3 rt cfg (st, ConnectOk # evs)
       = (st\<lparr>out := out st @ [Log LogConnected] @ publish_discovery cfg, pc := L104\<rparr>, evs)
   \<and> backoff (fst (steps 3 rt cfg (st, ConnectOk # evs))) = backoff st
   \<and> steps 4 rt cfg (st, ConnectOk # evs)
       = (st\<lparr>out := out st @ [Log LogConnected] @ publish_discovery cfg,
             backoff := 2, pc := L105\<rparr>, evs)
   \<and> filter is_publish (publish_discovery cfg)
       = map (\<lambda>s. Publish (discovery_topic cfg s) (JsonOf (PDict (to_discovery s cfg))) 1 True)
           (mappings cfg)"
  using assms
  by (simp add: eval_nat_numeral publish_discovery_def filter_publish_discovery_loop)

theorem connected_transition_witness:
  "pc \<lparr>pc = L101, backoff = 4, raw_left = 0, exc = ''refused'', out = []\<rparr> = L101
   \<and> steps 3 example_rt example_cfg
        (\<lparr>pc = L101, backoff = 4, raw_left = 0, exc = ''refused'', out = []\<rparr>, [ConnectOk, CloseOk])
      = (\<lparr>pc = L104, backoff = 4, raw_left = 0, exc = ''refused'',
          out = [Log LogConnected] @ publish_discovery example_cfg\<rparr>, [CloseOk])
   \<and> steps 4 example_rt example_cfg
        (\<lparr>pc = L101, backoff = 4, raw_left = 0, exc = ''refused'', out = []\<rparr>, [ConnectOk, CloseOk])
      = (\<lparr>pc = L105, backoff = 2, raw_left = 0, exc = ''refused'',
          out = [Log LogConnected] @ publish_discovery example_cfg\<rparr>, [CloseOk])"
  using connected_transition
    [of "\<lparr>pc = L101, backoff = 4, raw_left = 0, exc = ''refused'', out = []\<rparr>"
        example_rt example_cfg "[CloseOk]"]
  by simp

text \<open>
  C7 as it is stated, with the reset before the publication, fails. After one failed
  attempt and a successful one, the loop reaches line 103 with \<^verbatim>\<open>backoff = 4\<close>; the
  next statement appends the discovery publications and leaves 4; only the statement
  after that sets 2.
\<close>

theorem connected_transition_counterexample:
  "pc (fst (steps 8 example_rt example_cfg
       (bridge_init example_cfg, [ConnectError ''refused'', ConnectOk]))) = L103
   \<and> backoff (fst (steps 8 example_rt example_cfg
       (bridge_init example_cfg, [ConnectError ''refused'', ConnectOk]))) = 4
   \<and> out (fst (steps 9 example_rt example_cfg
       (bridge_init example_cfg, [ConnectError ''refused'', ConnectOk])))
      = out (fst (steps 8 example_rt example_cfg
          (bridge_init example_cfg, [ConnectError ''refused'', ConnectOk])))
        @ publish_discovery example_cfg
   \<and> backoff (fst (steps 9 example_rt example_cfg
       (bridge_init example_cfg, [ConnectError ''refused'', ConnectOk]))) = 4
   \<and> backoff (fst (steps 10 example_rt example_cfg
       (bridge_init example_cfg, [ConnectError ''refused'', ConnectOk]))) = 2"
  by (simp add: eval_nat_numeral bridge_init_def)

subsection \<open>Frames that do not decode\<close>

lemma step_raw_left: "step rt cfg c = Some c' \<Longrightarrow> raw_left (fst c') \<le> raw_left (fst c)"
  by (cases c)
     (auto simp: on_frame_frame split: label.splits list.splits event.splits)

lemma ws_loop_raw_left: "raw_left (fst (ws_loop rt cfg c)) \<le> raw_left (fst c)"
proof (induction rt cfg c rule: ws_loop.induct)
  case (1 rt cfg c)
  show ?case
  proof (cases "step rt cfg c")
    case None
    then show ?thesis by (simp add: ws_loop_stuck)
  next
    case (Some c')
    with "1.IH" have "raw_left (fst (ws_loop rt cfg c')) \<le> raw_left (fst c')"
      by simp
    with step_raw_left [OF Some] show ?thesis
      by (simp add: ws_loop_step [OF Some])
  qed
qed

text \<open>
  At line 105, that is while \<open>Connected\<close>, a frame on which \<^verbatim>\<open>json.loads\<close> raises
  \<^verbatim>\<open>JSONDecodeError\<close> is consumed by one step that publishes nothing, leaves the loop at line
  105 (still \<open>Connected\<close>, ready for the next frame) and leaves the backoff alone. If the
  quota \<^verbatim>\<open>raw_left\<close> is positive the step logs one line, with the first 500 characters of
  the frame, and takes one off the quota; otherwise it logs nothing. No step and no run of
  the loop ever raises the quota.
\<close>

lemma json_decode_error_skipped:
  assumes "pc st = L105" and "json_loads rt msg = JSONDecodeError"
  shows "\<exists>st'. step rt cfg (st, Frame msg # evs) = Some (st', evs)
           \<and> pc st' = L105 \<and> conn_state_of (pc st') = Connected
           \<and> backoff st' = backoff st
           \<and> filter is_publish (out st') = filter is_publish (out st)
           \<and> (0 < raw_left st \<longrightarrow>
                out st' = out st @ [Log (LogRawNonJson (take 500 msg))]
                \<and> raw_left st' = raw_left st - 1)
           \<and> (raw_left st \<le> 0 \<longrightarrow> out st' = out st \<and> raw_left st' = raw_left st)
           \<and> (\<forall>c c'. step rt cfg c = Some c' \<longrightarrow> raw_left (fst c') \<le> raw_left (fst c))
           \<and> (\<forall>c. raw_left (fst (ws_loop rt cfg c)) \<le> raw_left (fst c))"
proof (intro exI conjI allI impI)
  show "step rt cfg (st, Frame msg # evs) = Some (on_frame rt cfg msg st, evs)"
    using assms(1) by simp
  show "pc (on_frame rt cfg msg st) = L105"
    using assms by (simp add: pc_on_frame)
  then show "conn_state_of (pc (on_frame rt cfg msg st)) = Connected"
    by simp
  show "backoff (on_frame rt cfg msg st) = backoff st"
    by (rule on_frame_frame)
  show "filter is_publish (out (on_frame rt cfg msg st)) = filter is_publish (out st)"
    using assms(2) by (simp add: on_frame_def log_raw_def)
  show "out (on_frame rt cfg msg st) = out st @ [Log (LogRawNonJson (take 500 msg))]"
    if "0 < raw_left st"
    using that assms(2) by (simp add: on_frame_def log_raw_def)
  show "raw_left (on_frame rt cfg msg st) = raw_left st - 1" if "0 < raw_left st"
    using that assms(2) by (simp add: on_frame_def log_raw_def)
  show "out (on_frame rt cfg msg st) = out st" if "raw_left st \<le> 0"
    using that assms(2) by (simp add: on_frame_def log_raw_def)
  show "raw_left (on_frame rt cfg msg st) = raw_left st" if "raw_left st \<le> 0"
    using that assms(2) by (simp add: on_frame_def log_raw_def)
  show "raw_left (fst c') \<le> raw_left (fst c)" if "step rt cfg c = Some c'" for c c'
    using that by (rule step_raw_left)
  show "raw_left (fst (ws_loop rt cfg c)) \<le> raw_left (fst c)" for c
    by (rule ws_loop_raw_left)
qed

lemma json_decode_error_skipped_example:
  "json_loads example_rt ''not json'' = JSONDecodeError
   \<and> step example_rt example_cfg
        (\<lparr>pc = L105, backoff = 2, raw_left = 1, exc = [], out = []\<rparr>,
         [Frame ''not json'', Frame ''not json''])
      = Some (\<lparr>pc = L105, backoff = 2, raw_left = 0, exc = [],
               out = [Log (LogRawNonJson ''not json'')]\<rparr>, [Frame ''not json''])
   \<and> step example_rt example_cfg
        (\<lparr>pc = L105, backoff = 2, raw_left = 0, exc = [],
           out = [Log (LogRawNonJson ''not json'')]\<rparr>, [Frame ''not json''])
      = Some (\<lparr>pc = L105, backoff = 2, raw_left = 0, exc = [],
               out = [Log (LogRawNonJson ''not json'')]\<rparr>, [])"
proof -
  have n: "json_loads example_rt ''not json'' = JSONDecodeError"
    by (simp add: example_rt_def example_frames_def dq_def binary_frame_def)
  show ?thesis
    by (simp add: on_frame_def log_raw_def n)
qed

text \<open>
  A frame on which \<^verbatim>\<open>json.loads\<close> raises an exception of another class is not skipped: the
  exception passes lines 108 and 119, the loop ends, and the frames that follow are never
  read.
\<close>

lemma other_error_ends_loop:
  assumes "pc st = L105" and "json_loads rt msg = OtherError"
  shows "ws_loop rt cfg (st, Frame msg # evs) = (st\<lparr>pc := Lraised\<rparr>, evs)"
proof -
  have "ws_loop rt cfg (st, Frame msg # evs) = ws_loop rt cfg (st\<lparr>pc := Lraised\<rparr>, evs)"
    using assms by (intro ws_loop_step) (simp add: on_frame_def)
  also have "\<dots> = (st\<lparr>pc := Lraised\<rparr>, evs)"
    by (intro ws_loop_stuck) simp
  finally show ?thesis .
qed

text \<open>
  C9. The claim is that every frame that does not decode is skipped while the loop stays
  \<open>Connected\<close> and goes on with the next frame. The code does this for a frame on which
  \<^verbatim>\<open>json.loads\<close> raises \<^verbatim>\<open>JSONDecodeError\<close> (\<open>json_decode_error_skipped\<close>). It does not for the
  binary frame \<^verbatim>\<open>b'\xff'\<close>: \<^verbatim>\<open>json.loads\<close> raises \<^verbatim>\<open>UnicodeDecodeError\<close>, which line 108 does
  not catch; nothing is published or logged, the loop ends as \<open>Disconnected\<close> without a
  sleep or a new attempt, and the frame that follows stays unread.
\<close>

theorem malformed_frame_ends_loop:
  "json_loads example_rt binary_frame = OtherError
   \<and> ws_loop example_rt example_cfg
        (\<lparr>pc = L105, backoff = 2, raw_left = 1, exc = [], out = []\<rparr>,
         [Frame binary_frame, Frame ''not json''])
      = (\<lparr>pc = Lraised, backoff = 2, raw_left = 1, exc = [], out = []\<rparr>, [Frame ''not json''])
   \<and> conn_state_of Lraised = Disconnected"
proof -
  have n: "json_loads example_rt binary_frame = OtherError"
    by (simp add: example_rt_def example_frames_def dq_def binary_frame_def)
  have "pc \<lparr>pc = L105, backoff = 2, raw_left = 1, exc = [], out = []\<rparr> = L105"
    by simp
  from other_error_ends_loop [OF this n, of example_cfg "[Frame ''not json'']"]
  show ?thesis
    using n by simp
qed

subsection \<open>A run of the loop\<close>

text \<open>
  The actions of a run on the example data: a refused attempt, a session with a frame that
  has a progress, one that has a time, one that does not decode, and the loss of the
  session. The quota of raw frames is 1 and goes to the first frame.
\<close>

lemma example_run:
  "out (fst (ws_loop example_rt example_cfg
      (bridge_init example_cfg,
       [ConnectError ''refused'', ConnectOk,
        Frame (''{'' @ [dq] @ ''progress'' @ [dq] @ '':0.5}''),
        Frame (''{'' @ [dq] @ ''time_left'' @ [dq] @ '': 125}''),
        Frame ''not json'', CloseError ''closed''])))
   = [Log (LogConnecting ''ws://k1max.local:9999''),
      Log (LogWsError ''refused'' 2),
      Sleep 2,
      Log (LogConnecting ''ws://k1max.local:9999''),
      Log LogConnected,
      Publish ''homeassistant/sensor/k1max_1/p/config''
        (JsonOf (PDict (to_discovery sensor_p example_cfg))) 1 True,
      Log (LogDiscovery ''homeassistant/sensor/k1max_1/p/config''),
      Publish ''homeassistant/sensor/k1max_1/t/config''
        (JsonOf (PDict (to_discovery sensor_t example_cfg))) 1 True,
      Log (LogDiscovery ''homeassistant/sensor/k1max_1/t/config''),
      Log (LogRawJson (PDict [(''progress'', PFloat (Finite (1 / 2)))])),
      Publish ''k1max/state/p'' (StrOf (PFloat (Finite 50))) 0 True,
      Publish ''k1max/state/t'' (Text []) 0 True,
      Publish ''k1max/state/p'' (Text []) 0 True,
      Publish ''k1max/state/t'' (Text ''00:02:05'') 0 True,
      Log (LogWsError ''closed'' 2),
      Sleep 2,
      Log (LogConnecting ''ws://k1max.local:9999'')]"
  by (simp add: ws_loop.simps bridge_init_def example_cfg_def publish_discovery_def
      discovery_topic_def sensor_p_def sensor_t_def on_frame_def log_raw_def example_rt_def
      example_frames_def dq_def extract_values_def extract_one_def first_match_def mode_of_def
      publish_state_def round_half_even_def hms_eval is_digits_def is_digit_def
      binary_frame_def)

end
